theory Spec2Isabelle
  imports Complex_Main
begin

section \<open>JavaScript values and strings\<close>

text \<open>
  The hook \<^verbatim>\<open>useChatMessages\<close> (src/hooks/useChatMessages.ts) consumes an event stream whose
  payloads are parsed by \<^verbatim>\<open>JSON.parse\<close>; the parsed value has the TypeScript type \<^verbatim>\<open>any\<close>, so
  every shape of JSON value can reach every branch of the dispatcher. The model therefore
  keeps JavaScript values as a datatype and writes out what each property read, truthiness
  test and coercion does on each shape.

  A JavaScript string is modelled by the \<^typ>\<open>string\<close> holding its UTF-8 encoding, so that the
  ASCII prefixes, separators and literals of the source are written as they are.
\<close>

datatype number = Finite rat | PosInfinity | NegInfinity

datatype json =
    JNull
  | JBool bool
  | JNum number
  | JStr string
  | JArr "json list"
  | JObj "(string \<times> json) list"

text \<open>
  A value of type \<^typ>\<open>json option\<close> is a JavaScript value or \<^verbatim>\<open>undefined\<close> (\<^term>\<open>None\<close>).
  A number is the value of the double (the two zeros are one value here: they are equal
  and both falsy). The list of an object holds each own property once, with the value
  the object has for it.
\<close>

fun truthy :: "json \<Rightarrow> bool" where
  "truthy JNull = False"
| "truthy (JBool b) = b"
| "truthy (JNum n) = (n \<noteq> Finite 0)"
| "truthy (JStr s) = (s \<noteq> [])"
| "truthy (JArr xs) = True"
| "truthy (JObj kvs) = True"

fun truthy_opt :: "json option \<Rightarrow> bool" where
  "truthy_opt None = False"
| "truthy_opt (Some v) = truthy v"

text \<open>
  \<^verbatim>\<open>v.k\<close> on a value that is not \<^verbatim>\<open>null\<close>: only objects built by \<^verbatim>\<open>JSON.parse\<close> carry the
  property names the hook reads; on strings, numbers, booleans and arrays those names are
  \<^verbatim>\<open>undefined\<close>.
\<close>

fun field :: "json \<Rightarrow> string \<Rightarrow> json option" where
  "field (JObj kvs) k = map_of kvs k"
| "field v k = None"

text \<open>\<^verbatim>\<open>v.k\<close> where \<^verbatim>\<open>v\<close> may be \<^verbatim>\<open>null\<close>: the read throws a TypeError (\<^term>\<open>None\<close>).\<close>

definition get_prop :: "json \<Rightarrow> string \<Rightarrow> json option option" where
  "get_prop v k = (if v = JNull then None else Some (field v k))"

fun join_with :: "string \<Rightarrow> string list \<Rightarrow> string" where
  "join_with sep [] = []"
| "join_with sep [x] = x"
| "join_with sep (x # y # ys) = x @ sep @ join_with sep (y # ys)"

text \<open>
  \<^verbatim>\<open>ToString\<close>, with \<^term>\<open>None\<close> for the TypeError of a value that has no primitive. It is the
  identity on strings; the decimal rendering of a number is the platform's and is taken
  as the parameter \<open>nts\<close>; an array is the join of its elements with a comma. An object
  built by \<^verbatim>\<open>JSON.parse\<close> renders as \<^verbatim>\<open>[object Object]\<close> through the inherited \<^verbatim>\<open>toString\<close>,
  unless it has an own property \<^verbatim>\<open>toString\<close>: that value is not callable, the inherited
  \<^verbatim>\<open>valueOf\<close> returns the object itself, and the conversion throws.
\<close>

fun ToString :: "(number \<Rightarrow> string) \<Rightarrow> json \<Rightarrow> string option" where
  "ToString nts JNull = Some ''null''"
| "ToString nts (JBool b) = Some (if b then ''true'' else ''false'')"
| "ToString nts (JNum n) = Some (nts n)"
| "ToString nts (JStr s) = Some s"
| "ToString nts (JArr xs) =
     map_option (join_with '','')
       (those (map (\<lambda>x. if x = JNull then Some [] else ToString nts x) xs))"
| "ToString nts (JObj kvs) =
     (if map_of kvs ''toString'' = None then Some ''[object Object]'' else None)"

text \<open>
  \<^verbatim>\<open>xs.join(sep)\<close> on an array: \<^verbatim>\<open>null\<close> elements render as the empty string, and the join
  throws if an element cannot be converted.
\<close>

definition array_join :: "(number \<Rightarrow> string) \<Rightarrow> string \<Rightarrow> json list \<Rightarrow> string option" where
  "array_join nts sep xs =
     map_option (join_with sep)
       (those (map (\<lambda>x. if x = JNull then Some [] else ToString nts x) xs))"

fun startsWith :: "string \<Rightarrow> string \<Rightarrow> bool" where
  "startsWith s [] = True"
| "startsWith [] (p # ps) = False"
| "startsWith (c # cs) (p # ps) = (c = p \<and> startsWith cs ps)"

fun str_includes :: "string \<Rightarrow> string \<Rightarrow> bool" where
  "str_includes [] sub = (sub = [])"
| "str_includes (c # cs) sub = (startsWith (c # cs) sub \<or> str_includes cs sub)"

definition NL :: char where
  "NL = CHR 0x0A"

text \<open>\<^verbatim>\<open>chunk.split('\n')\<close>: the result is never empty, and a trailing newline yields a last
  empty line.\<close>

fun split_nl :: "string \<Rightarrow> string list" where
  "split_nl [] = [[]]"
| "split_nl (c # cs) =
     (if c = NL then [] # split_nl cs
      else (case split_nl cs of [] \<Rightarrow> [[c]] | l # ls \<Rightarrow> (c # l) # ls))"

text \<open>
  \<^verbatim>\<open>String.prototype.trim\<close> removes white space and line terminators from both ends. These
  are their UTF-8 encodings: U+0009 to U+000D, U+0020, U+00A0, U+1680, U+2000 to U+200A,
  U+2028, U+2029, U+202F, U+205F, U+3000 and U+FEFF.
\<close>

definition white_space :: "string list" where
  "white_space =
     [[CHR 0x09], [CHR 0x0A], [CHR 0x0B], [CHR 0x0C], [CHR 0x0D], [CHR 0x20],
      [CHR 0xC2, CHR 0xA0],
      [CHR 0xE1, CHR 0x9A, CHR 0x80],
      [CHR 0xE2, CHR 0x80, CHR 0x80], [CHR 0xE2, CHR 0x80, CHR 0x81],
      [CHR 0xE2, CHR 0x80, CHR 0x82], [CHR 0xE2, CHR 0x80, CHR 0x83],
      [CHR 0xE2, CHR 0x80, CHR 0x84], [CHR 0xE2, CHR 0x80, CHR 0x85],
      [CHR 0xE2, CHR 0x80, CHR 0x86], [CHR 0xE2, CHR 0x80, CHR 0x87],
      [CHR 0xE2, CHR 0x80, CHR 0x88], [CHR 0xE2, CHR 0x80, CHR 0x89],
      [CHR 0xE2, CHR 0x80, CHR 0x8A],
      [CHR 0xE2, CHR 0x80, CHR 0xA8], [CHR 0xE2, CHR 0x80, CHR 0xA9],
      [CHR 0xE2, CHR 0x80, CHR 0xAF],
      [CHR 0xE2, CHR 0x81, CHR 0x9F],
      [CHR 0xE3, CHR 0x80, CHR 0x80],
      [CHR 0xEF, CHR 0xBB, CHR 0xBF]]"

fun drop_token :: "string list \<Rightarrow> string \<Rightarrow> string option" where
  "drop_token [] s = None"
| "drop_token (t # ts) s =
     (if t \<noteq> [] \<and> startsWith s t then Some (drop (length t) s) else drop_token ts s)"

lemma drop_token_shorter: "drop_token ts s = Some r \<Longrightarrow> length r < length s"
proof (induction ts)
  case Nil
  then show ?case by simp
next
  case (Cons t ts)
  show ?case
  proof (cases "t \<noteq> [] \<and> startsWith s t")
    case True
    then have "s \<noteq> []" by (cases s; cases t) auto
    with True Cons.prems show ?thesis by (cases t) auto
  next
    case False
    with Cons show ?thesis by auto
  qed
qed

function strip_leading :: "string list \<Rightarrow> string \<Rightarrow> string" where
  "strip_leading ts s =
     (case drop_token ts s of None \<Rightarrow> s | Some r \<Rightarrow> strip_leading ts r)"
  by pat_completeness auto
termination
  by (relation "measure (\<lambda>(ts, s). length s)") (auto dest: drop_token_shorter)

definition trim :: "string \<Rightarrow> string" where
  "trim s = rev (strip_leading (map rev white_space) (rev (strip_leading white_space s)))"


section \<open>Text constants (constants/textConstants.ts)\<close>

definition PROCESSING_RESULTS :: string where
  "PROCESSING_RESULTS = ''Processing results...''"

definition API_ERROR :: string where
  "API_ERROR = ''API Error''"

definition UNKNOWN_ERROR :: string where
  "UNKNOWN_ERROR = ''Unknown error''"

definition NO_READABLE_STREAM :: string where
  "NO_READABLE_STREAM = ''No readable stream available''"

definition RESPONSE_COMPLETED :: string where
  "RESPONSE_COMPLETED = ''Response completed''"

definition ERROR_PREFIX :: string where
  "ERROR_PREFIX = ''PAWS right there! We have hit a snag :(''"

definition USER_CANCELED :: string where
  "USER_CANCELED = ''User canceled the request''"

text \<open>\<^verbatim>\<open>getApiStatusMessage\<close>: \<^verbatim>\<open>statusMessage || 'Processing...'\<close>.\<close>

definition getApiStatusMessage :: "json option \<Rightarrow> json" where
  "getApiStatusMessage statusMessage =
     (case statusMessage of
        Some v \<Rightarrow> if truthy v then v else JStr ''Processing...''
      | None \<Rightarrow> JStr ''Processing...'')"

section \<open>Chat messages (types/chat.ts)\<close>

text \<open>
  The records follow the interfaces of types/chat.ts; an optional field is an
  \<^typ>\<open>'a option\<close>. Fields declared \<^verbatim>\<open>string\<close> that the hook fills from a parsed payload
  without a check hold a \<^typ>\<open>json\<close> value, which is what the running code stores. The
  \<^verbatim>\<open>timestamp\<close> fields are wall-clock reads (\<^verbatim>\<open>new Date()\<close>) and are left out. A chart is
  stored as its decoded specification (the \<^verbatim>\<open>type\<close> tag is the constant \<^verbatim>\<open>'vega-lite'\<close>).
\<close>

datatype sender = User | Assistant

datatype message_status = Sending | Sent | Failed | Thinking

datatype timeline_type =
  TStatus | TThinking | TTool | TSql | TChart | TAnnotation

record timeline_entry =
  entry_type :: timeline_type
  content :: json

record SqlQueryWithVerification =
  sql :: string
  verification :: "json option"

record TextAnnotation =
  ann_type :: json
  start_index :: "json option"
  end_index :: "json option"
  annotation_index :: "json option"
  content_index :: "json option"
  ann_text :: "json option"
  url :: "json option"
  title :: "json option"
  source :: "json option"
  doc_id :: "json option"
  search_result_id :: "json option"
  index :: "json option"

record ChatMessage =
  msg_id :: string
  msg_text :: string
  sender :: sender
  status :: "message_status option"
  error :: "json option"
  isStreaming :: "bool option"
  streamingStatus :: "json option"
  thinkingSteps :: "json list option"
  thinkingTexts :: "json list option"
  sqlQueries :: "SqlQueryWithVerification list option"
  charts :: "json list option"
  annotations :: "TextAnnotation list option"
  timeline :: "timeline_entry list option"
  toolsUsed :: "string list option"

text \<open>\<^verbatim>\<open>xs || []\<close> on an optional array.\<close>

definition or_empty :: "'a list option \<Rightarrow> 'a list" where
  "or_empty xs = (case xs of None \<Rightarrow> [] | Some ys \<Rightarrow> ys)"

text \<open>
  \<^verbatim>\<open>xs.includes(x)\<close> compares by SameValueZero: primitives by value, objects and arrays by
  reference. At both call sites \<open>x\<close> is either a string constant or a part of the payload
  that \<^verbatim>\<open>JSON.parse\<close> has just built, so an object or array \<open>x\<close> is a fresh reference and is
  never found in the list.
\<close>

fun is_primitive :: "json \<Rightarrow> bool" where
  "is_primitive (JArr xs) = False"
| "is_primitive (JObj kvs) = False"
| "is_primitive v = True"

definition array_includes :: "json list \<Rightarrow> json \<Rightarrow> bool" where
  "array_includes xs x = (is_primitive x \<and> x \<in> set xs)"

section \<open>The platform and the collaborators that are not in the hook\<close>

text \<open>
  \<^verbatim>\<open>JSON.parse\<close>, the rendering of numbers, \<^verbatim>\<open>+\<close> on two values neither of which is a string,
  \<^verbatim>\<open>encodeURIComponent\<close> and the message of the TypeError thrown for a value that has no
  primitive belong to the JavaScript platform;
  \<^verbatim>\<open>extractSqlQuery\<close> and \<^verbatim>\<open>extractVerificationInfo\<close> (utils/chatUtils) and \<^verbatim>\<open>config.backendUrl\<close>
  (config/env) are imported by the hook. All are parameters of the model, so every theorem
  holds whatever they compute. \<^term>\<open>None\<close> stands for a thrown exception.
\<close>

record env =
  JSON_parse :: "string \<Rightarrow> json option"
  Number_toString :: "number \<Rightarrow> string"
  plus_non_string :: "json \<Rightarrow> json \<Rightarrow> json"
  encodeURIComponent :: "string \<Rightarrow> string"
  conversion_TypeError :: string
  extractSqlQuery :: "json \<Rightarrow> string option option"
  extractVerificationInfo :: "json \<Rightarrow> json option option"
  backendUrl :: string

definition to_string :: "env \<Rightarrow> json \<Rightarrow> string option" where
  "to_string env v = ToString (Number_toString env) v"

text \<open>
  Two conversions happen inside an updater passed to \<^verbatim>\<open>setMessages\<close> (the \<^verbatim>\<open>+\<close> of a reasoning
  delta, line 227, and the label of an annotation, line 305), which React runs outside the
  \<^verbatim>\<open>try\<close> blocks of the hook. If such a conversion throws, the updater returns nothing: React
  raises the exception while rendering and the error boundary of index.tsx replaces the
  component, so no conversation is shown any more. The patches are total functions; for a
  value that cannot be converted they carry the text of a plain object.
\<close>

definition updater_text :: "env \<Rightarrow> json \<Rightarrow> string" where
  "updater_text env v =
     (case to_string env v of Some s \<Rightarrow> s | None \<Rightarrow> ''[object Object]'')"

text \<open>\<^verbatim>\<open>a + b\<close>: string concatenation as soon as one operand is a string.\<close>

definition js_plus :: "env \<Rightarrow> json \<Rightarrow> json \<Rightarrow> json" where
  "js_plus env a b =
     (case (a, b) of
        (JStr s, _) \<Rightarrow> JStr (s @ updater_text env b)
      | (_, JStr t) \<Rightarrow> JStr (updater_text env a @ t)
      | _ \<Rightarrow> plus_non_string env a b)"


section \<open>The message accumulator\<close>

text \<open>
  Every update of the conversation is
  \<^verbatim>\<open>setMessages(prev => prev.map(msg => msg.id === assistantMessageId ? {...msg, ...} : msg))\<close>.
  \<open>patch\<close> is that map; the functions below are the object literals of the single call
  sites, each evaluated on the message as it was before the update.
\<close>

definition patch :: "string \<Rightarrow> (ChatMessage \<Rightarrow> ChatMessage) \<Rightarrow> ChatMessage list \<Rightarrow> ChatMessage list" where
  "patch assistantMessageId f prev =
     map (\<lambda>msg. if msg_id msg = assistantMessageId then f msg else msg) prev"

definition text_delta_patch :: "string \<Rightarrow> ChatMessage \<Rightarrow> ChatMessage" where
  "text_delta_patch currentText msg =
     msg\<lparr>msg_text := currentText, status := Some Thinking, isStreaming := Some True\<rparr>"

definition add_step :: "json \<Rightarrow> ChatMessage \<Rightarrow> json list option" where
  "add_step label msg =
     (if array_includes (or_empty (thinkingSteps msg)) label then thinkingSteps msg
      else Some (or_empty (thinkingSteps msg) @ [label]))"

definition status_patch :: "json \<Rightarrow> ChatMessage \<Rightarrow> ChatMessage" where
  "status_patch statusMessage msg =
     msg\<lparr>status := Some Thinking,
         streamingStatus := Some statusMessage,
         thinkingSteps := add_step statusMessage msg,
         timeline := Some (or_empty (timeline msg) @
                       [\<lparr>entry_type = TStatus, content = statusMessage\<rparr>])\<rparr>"

definition tool_result_patch :: "string option \<Rightarrow> json option \<Rightarrow> ChatMessage \<Rightarrow> ChatMessage" where
  "tool_result_patch sqlQuery verificationInfo msg =
     (let toolStatus = JStr PROCESSING_RESULTS in
      msg\<lparr>status := Some Thinking,
          streamingStatus := Some toolStatus,
          thinkingSteps := add_step toolStatus msg,
          sqlQueries :=
            (case sqlQuery of
               Some q \<Rightarrow>
                 if q \<noteq> [] then
                   Some (or_empty (sqlQueries msg) @
                     [\<lparr>sql = q,
                       verification =
                         (if truthy_opt verificationInfo then verificationInfo else None)\<rparr>])
                 else sqlQueries msg
             | None \<Rightarrow> sqlQueries msg),
          timeline :=
            Some (or_empty (timeline msg) @
              [\<lparr>entry_type = TTool, content = toolStatus\<rparr>] @
              (case sqlQuery of
                 Some q \<Rightarrow> if q \<noteq> [] then [\<lparr>entry_type = TSql, content = JStr q\<rparr>] else []
               | None \<Rightarrow> []))\<rparr>)"

definition thinking_patch :: "string \<Rightarrow> ChatMessage \<Rightarrow> ChatMessage" where
  "thinking_patch thinkingText msg =
     msg\<lparr>status := Some Thinking,
         thinkingTexts := Some (or_empty (thinkingTexts msg) @ [JStr thinkingText]),
         timeline := Some (or_empty (timeline msg) @
                       [\<lparr>entry_type = TThinking, content = JStr thinkingText\<rparr>])\<rparr>"

definition thinking_delta_patch :: "env \<Rightarrow> json \<Rightarrow> ChatMessage \<Rightarrow> ChatMessage" where
  "thinking_delta_patch env deltaText msg =
     (let currentThinkingTexts = or_empty (thinkingTexts msg) in
      if currentThinkingTexts \<noteq> [] then
        msg\<lparr>status := Some Thinking,
            thinkingTexts :=
              Some (currentThinkingTexts
                [length currentThinkingTexts - 1 :=
                   js_plus env (last currentThinkingTexts) deltaText])\<rparr>
      else
        msg\<lparr>status := Some Thinking,
            thinkingTexts := Some [deltaText],
            timeline := Some (or_empty (timeline msg) @
                          [\<lparr>entry_type = TThinking,
                            content = JStr ''Processing thinking...''\<rparr>])\<rparr>)"

definition chart_patch :: "json \<Rightarrow> ChatMessage \<Rightarrow> ChatMessage" where
  "chart_patch chartSpec msg =
     msg\<lparr>charts := Some (or_empty (charts msg) @ [chartSpec]),
         timeline := Some (or_empty (timeline msg) @
                       [\<lparr>entry_type = TChart,
                         content = JStr ''Chart visualization added''\<rparr>])\<rparr>"

text \<open>
  The annotation record built from the payload (lines 279 to 294 of the hook);
  \<open>annotationData_of\<close> is \<^verbatim>\<open>data.annotation || data\<close>.
\<close>

definition annotationData_of :: "json \<Rightarrow> json" where
  "annotationData_of data =
     (if truthy_opt (field data ''annotation'') then the (field data ''annotation'') else data)"

definition make_annotation :: "json \<Rightarrow> TextAnnotation" where
  "make_annotation data =
     (let annotationData = annotationData_of data
      in \<lparr>ann_type =
             (if truthy_opt (field annotationData ''type'')
              then the (field annotationData ''type'') else JStr ''citation''),
           start_index = field data ''start_index'',
           end_index = field data ''end_index'',
           annotation_index = field data ''annotation_index'',
           content_index = field data ''content_index'',
           ann_text = field annotationData ''text'',
           url = field annotationData ''doc_id'',
           title = field annotationData ''doc_title'',
           source = field annotationData ''source'',
           doc_id = field annotationData ''doc_id'',
           search_result_id = field annotationData ''search_result_id'',
           index = field annotationData ''index''\<rparr>)"

definition annotation_patch :: "env \<Rightarrow> TextAnnotation \<Rightarrow> ChatMessage \<Rightarrow> ChatMessage" where
  "annotation_patch env annotation msg =
     msg\<lparr>annotations := Some (or_empty (annotations msg) @ [annotation]),
         timeline := Some (or_empty (timeline msg) @
                       [\<lparr>entry_type = TAnnotation,
                         content = JStr (''Citation: '' @
                           (if truthy_opt (title annotation)
                            then updater_text env (the (title annotation))
                            else ''Reference''))\<rparr>])\<rparr>"

definition finalize_patch :: "string \<Rightarrow> ChatMessage \<Rightarrow> ChatMessage" where
  "finalize_patch assistantText msg =
     msg\<lparr>msg_text := (if assistantText \<noteq> [] then assistantText else RESPONSE_COMPLETED),
         status := Some Sent,
         isStreaming := Some False,
         streamingStatus := None\<rparr>"

definition error_patch :: "json \<Rightarrow> ChatMessage \<Rightarrow> ChatMessage" where
  "error_patch errorMessage msg =
     msg\<lparr>msg_text := [],
         status := Some Failed,
         error := Some errorMessage,
         isStreaming := Some False,
         streamingStatus := None\<rparr>"


section \<open>The event dispatcher and the event framer\<close>

text \<open>The variables of one run of the streaming loop, with the conversation they update.\<close>

record stream_state =
  assistantText :: string
  currentEvent :: string
  conversation :: "ChatMessage list"

text \<open>
  \<^verbatim>\<open>currentEvent === name && data.k\<close>: the property is read only when the event name matches;
  \<^term>\<open>None\<close> is the TypeError of reading a property of \<^verbatim>\<open>null\<close>.
\<close>

definition event_and :: "bool \<Rightarrow> json option option \<Rightarrow> bool option" where
  "event_and is_event p = (if is_event then map_option truthy_opt p else Some False)"

definition thinking_cond :: "bool \<Rightarrow> json \<Rightarrow> bool option" where
  "thinking_cond is_event data =
     (if is_event then
        (case get_prop data ''thinking'' of
           None \<Rightarrow> None
         | Some th \<Rightarrow>
             if truthy_opt th then Some (truthy_opt (field (the th) ''text'')) else Some False)
      else Some False)"

definition update :: "string \<Rightarrow> (ChatMessage \<Rightarrow> ChatMessage) \<Rightarrow> stream_state \<Rightarrow> stream_state" where
  "update assistantMessageId f st =
     st\<lparr>conversation := patch assistantMessageId f (conversation st)\<rparr>"

text \<open>
  The body of the \<^verbatim>\<open>try\<close> block after \<^verbatim>\<open>JSON.parse\<close> (lines 141 to 317): the chain of
  \<^verbatim>\<open>if\<close>/\<^verbatim>\<open>else if\<close> in the order of the source. \<^term>\<open>None\<close> is an exception, which the
  enclosing \<^verbatim>\<open>catch\<close> swallows; every exception is raised before the state is touched
  (\<^verbatim>\<open>assistantText += data.text\<close> assigns nothing when the conversion of the text throws).
  The chart branch has a \<^verbatim>\<open>try\<close> of its own around the conversion and the parsing of the
  specification.
\<close>

definition handle_data :: "env \<Rightarrow> string \<Rightarrow> stream_state \<Rightarrow> json \<Rightarrow> stream_state option" where
  "handle_data env assistantMessageId st data =
    (case event_and (currentEvent st = ''response.text.delta'') (get_prop data ''text'') of
       None \<Rightarrow> None
     | Some True \<Rightarrow>
         (case to_string env (the (field data ''text'')) of
            None \<Rightarrow> None
          | Some t \<Rightarrow>
              (let currentText = assistantText st @ t in
               Some (update assistantMessageId (text_delta_patch currentText)
                       (st\<lparr>assistantText := currentText\<rparr>))))
     | Some False \<Rightarrow>
    (case event_and (currentEvent st = ''response.status'') (get_prop data ''message'') of
       None \<Rightarrow> None
     | Some True \<Rightarrow>
         Some (update assistantMessageId
                 (status_patch (getApiStatusMessage (field data ''message''))) st)
     | Some False \<Rightarrow>
    if currentEvent st = ''response.tool_result'' then
      (case extractSqlQuery env data of
         None \<Rightarrow> None
       | Some sqlQuery \<Rightarrow>
           (case extractVerificationInfo env data of
              None \<Rightarrow> None
            | Some verificationInfo \<Rightarrow>
                Some (update assistantMessageId
                        (tool_result_patch sqlQuery verificationInfo) st)))
    else
    (case thinking_cond (currentEvent st = ''response.thinking'') data of
       None \<Rightarrow> None
     | Some True \<Rightarrow>
         (case field (the (field data ''thinking'')) ''text'' of
            Some (JStr t) \<Rightarrow>
              (let thinkingText = trim t in
               if thinkingText \<noteq> []
               then Some (update assistantMessageId (thinking_patch thinkingText) st)
               else Some st)
          | _ \<Rightarrow> None)
     | Some False \<Rightarrow>
    (case event_and (currentEvent st = ''response.thinking.delta'') (get_prop data ''text'') of
       None \<Rightarrow> None
     | Some True \<Rightarrow>
         Some (update assistantMessageId
                 (thinking_delta_patch env (the (field data ''text''))) st)
     | Some False \<Rightarrow>
    if currentEvent st = ''response.chart'' then
      (case get_prop data ''chart_spec'' of
         None \<Rightarrow> None
       | Some chart_spec \<Rightarrow>
           if truthy_opt chart_spec then
             (case to_string env (the chart_spec) of
                None \<Rightarrow> Some st
              | Some spec_text \<Rightarrow>
                  (case JSON_parse env spec_text of
                     None \<Rightarrow> Some st
                   | Some chartSpec \<Rightarrow>
                       Some (update assistantMessageId (chart_patch chartSpec) st)))
           else Some st)
    else if currentEvent st = ''response.text.annotation'' then
      (if truthy data
       then Some (update assistantMessageId (annotation_patch env (make_annotation data)) st)
       else Some st)
    else Some st))))"

text \<open>One iteration of \<^verbatim>\<open>for (const line of lines)\<close> (lines 132 to 321).\<close>

definition process_line :: "env \<Rightarrow> string \<Rightarrow> stream_state \<Rightarrow> string \<Rightarrow> stream_state" where
  "process_line env assistantMessageId st line =
     (if startsWith line ''event: '' then st\<lparr>currentEvent := trim (drop 7 line)\<rparr>
      else if startsWith line ''data: '' then
        (let dataStr = trim (drop 6 line) in
         if dataStr = [] \<or> dataStr = ''[DONE]'' then st
         else
           (case JSON_parse env dataStr of
              None \<Rightarrow> st
            | Some data \<Rightarrow>
                (case handle_data env assistantMessageId st data of
                   None \<Rightarrow> st
                 | Some st' \<Rightarrow> st')))
      else st)"

definition process_lines :: "env \<Rightarrow> string \<Rightarrow> stream_state \<Rightarrow> string list \<Rightarrow> stream_state" where
  "process_lines env assistantMessageId st lines =
     foldl (process_line env assistantMessageId) st lines"

text \<open>
  One iteration of \<^verbatim>\<open>while (true)\<close> after a read that is not \<^verbatim>\<open>done\<close>: \<open>chunk\<close> is the text
  the decoder returns for the bytes of this read.
\<close>

definition process_chunk :: "env \<Rightarrow> string \<Rightarrow> stream_state \<Rightarrow> string \<Rightarrow> stream_state" where
  "process_chunk env assistantMessageId st chunk =
     process_lines env assistantMessageId st (split_nl chunk)"

definition read_loop :: "env \<Rightarrow> string \<Rightarrow> stream_state \<Rightarrow> string list \<Rightarrow> stream_state" where
  "read_loop env assistantMessageId st chunks =
     foldl (process_chunk env assistantMessageId) st chunks"


section \<open>The network as seen by one turn\<close>

text \<open>
  A thrown value: an \<^verbatim>\<open>Error\<close> object with its \<^verbatim>\<open>name\<close>, whether it is a \<^verbatim>\<open>TypeError\<close>, its
  \<^verbatim>\<open>message\<close> and the \<^verbatim>\<open>fullMessage\<close> property the hook attaches to its own errors; or a
  value that is not an \<^verbatim>\<open>Error\<close>.
\<close>

datatype thrown =
    ErrorObject (err_name: string) (is_TypeError: bool) (err_message: string)
      (fullMessage: "json option")
  | NonError

text \<open>
  What the awaited calls of one turn deliver: the chunks the decoder yields for the reads
  of the body and how the reads end (\<^term>\<open>None\<close>: \<^verbatim>\<open>done\<close>; \<^term>\<open>Some e\<close>: the read rejects).
  \<open>json_result\<close> is what \<^verbatim>\<open>response.json()\<close> resolves to (\<^term>\<open>Inr\<close>) or rejects with
  (\<^term>\<open>Inl\<close>);
  \<open>body\<close> is \<^term>\<open>None\<close> when \<^verbatim>\<open>response.body?.getReader()\<close> is undefined.
\<close>

record body_stream =
  chunks :: "string list"
  ending :: "thrown option"

record response =
  status_code :: nat
  statusText :: string
  content_type :: "string option"
  json_result :: "thrown + json"
  body :: "body_stream option"

datatype fetch_result = FetchRejects thrown | FetchResolves response

text \<open>\<^verbatim>\<open>response.ok\<close> is true exactly for the status codes 200 to 299.\<close>

definition response_ok :: "response \<Rightarrow> bool" where
  "response_ok r = (200 \<le> status_code r \<and> status_code r \<le> 299)"

fun show_nat :: "nat \<Rightarrow> string" where
  "show_nat n =
     (if n < 10 then [char_of (48 + n)]
      else show_nat (n div 10) @ [char_of (48 + n mod 10)])"

section \<open>The error classifier\<close>

text \<open>
  Lines 93 to 105: the message of the error thrown for a response that is not \<^verbatim>\<open>ok\<close>. Each
  exception inside the inner \<^verbatim>\<open>try\<close> (a rejected \<^verbatim>\<open>response.json()\<close>, a property read on
  \<^verbatim>\<open>null\<close>, \<^verbatim>\<open>join\<close> on a value that is not an array or on an element that cannot be
  converted) leaves the default message.
\<close>

definition http_error_message :: "env \<Rightarrow> response \<Rightarrow> json" where
  "http_error_message env r =
     (let errorMessage =
            JStr (API_ERROR @ '': '' @ show_nat (status_code r) @ '' '' @ statusText r)
      in case content_type r of
           None \<Rightarrow> errorMessage
         | Some contentType \<Rightarrow>
             if str_includes contentType ''application/json'' then
               (case json_result r of
                  Inl e \<Rightarrow> errorMessage
                | Inr errorData \<Rightarrow>
                    (case get_prop errorData ''errorParts'' of
                       None \<Rightarrow> errorMessage
                     | Some errorParts \<Rightarrow>
                         if truthy_opt errorParts then
                           (case the errorParts of
                              JArr parts \<Rightarrow>
                                (case array_join (Number_toString env) [NL, NL] parts of
                                   Some joined \<Rightarrow> JStr joined
                                 | None \<Rightarrow> errorMessage)
                            | _ \<Rightarrow> errorMessage)
                         else if truthy_opt (field errorData ''error'')
                           then the (field errorData ''error'')
                         else if truthy_opt (field errorData ''message'')
                           then the (field errorData ''message'')
                         else errorMessage))
             else errorMessage)"

text \<open>
  What lines 107 to 109 and 114 to 117 throw: \<^verbatim>\<open>new Error(errorMessage)\<close> with \<^verbatim>\<open>fullMessage\<close>
  attached, or, when the constructor cannot convert the message, the TypeError of that
  conversion.
\<close>

definition new_Error :: "env \<Rightarrow> json \<Rightarrow> thrown" where
  "new_Error env errorMessage =
     (case to_string env errorMessage of
        Some m \<Rightarrow> ErrorObject ''Error'' False m (Some errorMessage)
      | None \<Rightarrow> ErrorObject ''TypeError'' True (conversion_TypeError env) None)"

definition is_AbortError :: "thrown \<Rightarrow> bool" where
  "is_AbortError e =
     (case e of ErrorObject n t m f \<Rightarrow> n = ''AbortError'' | NonError \<Rightarrow> False)"

definition is_network_error :: "thrown \<Rightarrow> bool" where
  "is_network_error e =
     (case e of
        ErrorObject n t m f \<Rightarrow>
          t \<and> (str_includes m ''network'' \<or> str_includes m ''fetch''
               \<or> str_includes m ''Failed to fetch'')
      | NonError \<Rightarrow> False)"

definition canceled_message :: string where
  "canceled_message = ERROR_PREFIX @ [NL, NL] @ USER_CANCELED"

text \<open>The tip of the connection-lost message starts with U+1F4A1, here in UTF-8.\<close>

definition connection_lost_message :: "env \<Rightarrow> string" where
  "connection_lost_message env =
     ERROR_PREFIX @ [NL, NL] @ ''Connection lost during streaming.'' @ [NL, NL] @
     [CHR 0xF0, CHR 0x9F, CHR 0x92, CHR 0xA1] @ '' Tip: The backend server at '' @
     backendUrl env @
     '' stopped or crashed, network connection was interrupted, or the backend server is no longer running.''"

text \<open>The error text the \<^verbatim>\<open>catch\<close> block writes (lines 342 to 367).\<close>

definition classify :: "env \<Rightarrow> thrown \<Rightarrow> json" where
  "classify env e =
     (if is_AbortError e then JStr canceled_message
      else if is_network_error e then JStr (connection_lost_message env)
      else
        (case e of
           ErrorObject n t m f \<Rightarrow> if truthy_opt f then the f else JStr m
         | NonError \<Rightarrow> JStr UNKNOWN_ERROR))"

definition catch_block :: "env \<Rightarrow> string \<Rightarrow> thrown \<Rightarrow> ChatMessage list \<Rightarrow> ChatMessage list" where
  "catch_block env assistantMessageId e prev =
     patch assistantMessageId (error_patch (classify env e)) prev"


declare show_nat.simps [simp del]

declare strip_leading.simps [simp del]

section \<open>The lifecycle controller\<close>

definition MAX_MESSAGES :: nat where
  "MAX_MESSAGES = 100"

text \<open>
  The state of the hook: the two \<^verbatim>\<open>useState\<close> cells and the \<^verbatim>\<open>useRef\<close> cell. The controller
  in the cell carries whether \<^verbatim>\<open>abort()\<close> has been called on it.
\<close>

datatype abort_controller = AbortController (aborted: bool)

record hook_state =
  messages :: "ChatMessage list"
  isLoading :: bool
  abortControllerRef :: "abort_controller option"

record fetch_request =
  endpoint :: string
  request_text :: string

definition user_message :: "string \<Rightarrow> string \<Rightarrow> ChatMessage" where
  "user_message messageId message =
     \<lparr>msg_id = messageId @ ''_user'', msg_text = trim message, sender = User,
      status = None, error = None, isStreaming = None, streamingStatus = None,
      thinkingSteps = None, thinkingTexts = None, sqlQueries = None, charts = None,
      annotations = None, timeline = None, toolsUsed = None\<rparr>"

definition assistant_message :: "string \<Rightarrow> ChatMessage" where
  "assistant_message messageId =
     \<lparr>msg_id = messageId @ ''_assistant'', msg_text = [], sender = Assistant,
      status = Some Thinking, error = None, isStreaming = Some True,
      streamingStatus = None, thinkingSteps = Some [], thinkingTexts = None,
      sqlQueries = Some [], charts = None, annotations = None, timeline = Some [],
      toolsUsed = Some []\<rparr>"

text \<open>The updater of lines 46 to 52; \<^verbatim>\<open>xs.slice(-n)\<close> keeps the last \<open>n\<close> elements.\<close>

definition append_pair :: "ChatMessage \<Rightarrow> ChatMessage \<Rightarrow> ChatMessage list \<Rightarrow> ChatMessage list" where
  "append_pair userMessage assistantMessage prev =
     (let newMessages = prev @ [userMessage, assistantMessage] in
      if length newMessages > MAX_MESSAGES
      then drop (length newMessages - MAX_MESSAGES) newMessages
      else newMessages)"

text \<open>
  Lines 59 to 338: the \<^verbatim>\<open>try\<close> block on the conversation \<open>prev\<close>, given what the network
  delivers. The result is the conversation when the block is left and the exception that
  left it, if any; updates made before an exception stay.
\<close>

definition try_block :: "env \<Rightarrow> string \<Rightarrow> fetch_result \<Rightarrow> ChatMessage list \<Rightarrow> ChatMessage list \<times> thrown option" where
  "try_block env assistantMessageId net prev =
     (case net of
        FetchRejects e \<Rightarrow> (prev, Some e)
      | FetchResolves r \<Rightarrow>
          if \<not> response_ok r then (prev, Some (new_Error env (http_error_message env r)))
          else
            (case body r of
               None \<Rightarrow> (prev, Some (new_Error env (JStr NO_READABLE_STREAM)))
             | Some reader \<Rightarrow>
                 (let st = read_loop env assistantMessageId
                             \<lparr>assistantText = [], currentEvent = [], conversation = prev\<rparr>
                             (chunks reader)
                  in case ending reader of
                       Some e \<Rightarrow> (conversation st, Some e)
                     | None \<Rightarrow>
                         (patch assistantMessageId (finalize_patch (assistantText st))
                            (conversation st), None))))"

definition run_turn :: "env \<Rightarrow> string \<Rightarrow> fetch_result \<Rightarrow> ChatMessage list \<Rightarrow> ChatMessage list" where
  "run_turn env assistantMessageId net prev =
     (case try_block env assistantMessageId net prev of
        (conv, None) \<Rightarrow> conv
      | (conv, Some e) \<Rightarrow> catch_block env assistantMessageId e conv)"

text \<open>
  \<^verbatim>\<open>sendMessage\<close>. \<open>now\<close> is the value of \<^verbatim>\<open>Date.now()\<close>, \<open>net\<close> what the network delivers to
  this turn. The result is the state after the \<^verbatim>\<open>finally\<close> block and the request issued,
  if one was; the value the promise resolves to (\<^verbatim>\<open>success\<close> and the id or the error) is
  determined by \<open>try_block\<close> and is not returned. \<open>isLoading\<close> is the value of the state cell
  that the callback closes over.
\<close>

definition admitted :: "hook_state \<Rightarrow> string \<Rightarrow> bool" where
  "admitted st message = (\<not> (trim message = [] \<or> isLoading st))"

definition turn_request :: "env \<Rightarrow> string \<Rightarrow> string \<Rightarrow> fetch_request" where
  "turn_request env selectedAgent message =
     \<lparr>endpoint = backendUrl env @ ''/api/agents/'' @ encodeURIComponent env selectedAgent
                   @ ''/messages'',
      request_text = trim message\<rparr>"

text \<open>The synchronous part of \<^verbatim>\<open>sendMessage\<close>, up to the call of \<^verbatim>\<open>fetch\<close> (lines 21 to 89).\<close>

definition begin_turn :: "nat \<Rightarrow> hook_state \<Rightarrow> string \<Rightarrow> hook_state" where
  "begin_turn now st message =
     (if \<not> admitted st message then st
      else
        st\<lparr>messages :=
             append_pair (user_message (show_nat now) message)
               (assistant_message (show_nat now)) (messages st),
           isLoading := True,
           abortControllerRef := Some (AbortController False)\<rparr>)"

definition sendMessage :: "env \<Rightarrow> string \<Rightarrow> nat \<Rightarrow> fetch_result \<Rightarrow> hook_state \<Rightarrow> string \<Rightarrow> hook_state \<times> fetch_request option" where
  "sendMessage env selectedAgent now net st message =
     (if \<not> admitted st message then (st, None)
      else
        (let st1 = begin_turn now st message;
             conv = run_turn env (show_nat now @ ''_assistant'') net (messages st1)
         in (st1\<lparr>messages := conv, isLoading := False, abortControllerRef := None\<rparr>,
             Some (turn_request env selectedAgent message))))"

definition cancelRequest :: "hook_state \<Rightarrow> hook_state" where
  "cancelRequest st =
     (case abortControllerRef st of
        Some c \<Rightarrow> if isLoading st then st\<lparr>abortControllerRef := Some (AbortController True)\<rparr>
                  else st
      | None \<Rightarrow> st)"

definition clearMessages :: "hook_state \<Rightarrow> hook_state" where
  "clearMessages st =
     (cancelRequest st)\<lparr>messages := [], isLoading := False, abortControllerRef := None\<rparr>"


text \<open>
  The state as a callback created at an earlier render reads it: the conversation (the
  updaters of \<^verbatim>\<open>setMessages\<close> receive the current one) and the ref are the current ones,
  \<open>isLoading\<close> is the value captured when the callback was created.
\<close>

definition through_callback :: "bool \<Rightarrow> hook_state \<Rightarrow> hook_state" where
  "through_callback captured st = st\<lparr>isLoading := captured\<rparr>"

section \<open>Conversations the hook can hold\<close>

text \<open>
  Every change of the conversation is one call of \<^verbatim>\<open>setMessages\<close>. The calls of different
  turns, and of \<^verbatim>\<open>clearMessages\<close>, can interleave at each \<^verbatim>\<open>await\<close>, so the conversations the
  hook can hold are those built from the empty one by the updaters in any order: the
  admission of a pair, the update of one stream line (in any state of its loop), the
  finalization patch, the error patch, and the clearing.
\<close>

inductive reachable :: "env \<Rightarrow> ChatMessage list \<Rightarrow> bool" for env :: env where
  initial: "reachable env []"
| admit: "reachable env prev \<Longrightarrow>
     reachable env (append_pair (user_message (show_nat now) message)
                      (assistant_message (show_nat now)) prev)"
| event: "reachable env (conversation st) \<Longrightarrow>
     reachable env (conversation (process_line env assistantMessageId st line))"
| finalize: "reachable env prev \<Longrightarrow>
     reachable env (patch assistantMessageId (finalize_patch txt) prev)"
| failure: "reachable env prev \<Longrightarrow>
     reachable env (catch_block env assistantMessageId e prev)"
| clear: "reachable env prev \<Longrightarrow> reachable env []"

text \<open>The patches the accumulator applies to the addressed message.\<close>

inductive is_patch :: "env \<Rightarrow> (ChatMessage \<Rightarrow> ChatMessage) \<Rightarrow> bool" for env :: env where
  p_text_delta: "is_patch env (text_delta_patch t)"
| p_status: "truthy v \<Longrightarrow> is_patch env (status_patch v)"
| p_tool: "is_patch env (tool_result_patch q v)"
| p_thinking: "is_patch env (thinking_patch t)"
| p_thinking_delta: "is_patch env (thinking_delta_patch env v)"
| p_chart: "is_patch env (chart_patch c)"
| p_annotation: "is_patch env (annotation_patch env a)"
| p_finalize: "is_patch env (finalize_patch t)"
| p_error: "is_patch env (error_patch e)"

text \<open>A user message and the assistant message admitted with it: their ids share the stem.\<close>

definition is_pair :: "ChatMessage \<Rightarrow> ChatMessage \<Rightarrow> bool" where
  "is_pair u a =
     (sender u = User \<and> sender a = Assistant \<and>
      (\<exists>messageId. msg_id u = messageId @ ''_user'' \<and> msg_id a = messageId @ ''_assistant''))"

fun paired :: "ChatMessage list \<Rightarrow> bool" where
  "paired [] = True"
| "paired [m] = False"
| "paired (u # a # rest) = (is_pair u a \<and> paired rest)"

section \<open>Vocabulary of the statements\<close>

text \<open>
  The event name a framer following the specification holds after the lines \<open>ls\<close>: the name
  of the last declaration line among them, the name it started with if there is none.
\<close>

definition last_declared :: "string \<Rightarrow> string list \<Rightarrow> string" where
  "last_declared ev ls =
     (let ds = filter (\<lambda>l. startsWith l ''event: '') ls
      in if ds = [] then ev else trim (drop 7 (last ds)))"

text \<open>
  The text-delta events a stream of lines delivers, in order of arrival, each with its
  text as a string: the data lines for which the most recently declared event name is
  \<^verbatim>\<open>response.text.delta\<close> (\<open>ev\<close> before the first declaration) and whose payload parses
  to a value with a truthy \<^verbatim>\<open>text\<close> that has a string conversion. For a string, truthy is
  non-empty and the text is the string itself.
\<close>

definition delta_payload :: "env \<Rightarrow> string \<Rightarrow> string option" where
  "delta_payload env l =
     (if startsWith l ''data: '' \<and> trim (drop 6 l) \<noteq> [] \<and> trim (drop 6 l) \<noteq> ''[DONE]'' then
        (case JSON_parse env (trim (drop 6 l)) of
           Some d \<Rightarrow>
             if d \<noteq> JNull \<and> truthy_opt (field d ''text'')
             then to_string env (the (field d ''text''))
             else None
         | None \<Rightarrow> None)
      else None)"

definition delta_at :: "env \<Rightarrow> string \<Rightarrow> string list \<Rightarrow> nat \<Rightarrow> string option" where
  "delta_at env ev ls i =
     (if last_declared ev (take i ls) = ''response.text.delta''
      then delta_payload env (ls ! i) else None)"

definition text_delta_events :: "env \<Rightarrow> string \<Rightarrow> string list \<Rightarrow> string list" where
  "text_delta_events env ev ls = List.map_filter (delta_at env ev ls) [0..<length ls]"

text \<open>The text of a chunk that consists of the lines \<open>ls\<close>, each ended by a newline.\<close>

definition terminated_lines :: "string list \<Rightarrow> string" where
  "terminated_lines ls = concat (map (\<lambda>l. l @ [NL]) ls)"

text \<open>
  The thinking steps that are primitive values. Objects and arrays, which only a payload
  that breaks the declared type \<^verbatim>\<open>string\<close> can put into the list, are separate references
  in the running program and never equal to one another.
\<close>

definition step_labels :: "ChatMessage \<Rightarrow> json list" where
  "step_labels msg = filter is_primitive (or_empty (thinkingSteps msg))"

text \<open>What a failure leaves of a message: everything the error patch does not write.\<close>

definition retained :: "ChatMessage \<Rightarrow> ChatMessage \<Rightarrow> bool" where
  "retained before after =
     (msg_id after = msg_id before \<and> sender after = sender before \<and>
      timeline after = timeline before \<and> thinkingSteps after = thinkingSteps before \<and>
      thinkingTexts after = thinkingTexts before \<and> sqlQueries after = sqlQueries before \<and>
      charts after = charts before \<and> annotations after = annotations before \<and>
      toolsUsed after = toolsUsed before)"

section \<open>A platform for the examples\<close>

text \<open>\<^verbatim>\<open>JSON.parse\<close> on the payloads the examples use; every other text is rejected.\<close>

definition example_parse :: "string \<Rightarrow> json option" where
  \<open>example_parse s =
     (if s = ''{"text":"Hel"}'' then Some (JObj [(''text'', JStr ''Hel'')])
      else if s = ''{"text":"lo"}'' then Some (JObj [(''text'', JStr ''lo'')])
      else if s = ''{"message":"Planning"}'' then Some (JObj [(''message'', JStr ''Planning'')])
      else if s = ''{"annotation":{"url":"https://example.com/a","doc_id":"doc-1"}}''
        then Some (JObj [(''annotation'',
               JObj [(''url'', JStr ''https://example.com/a''), (''doc_id'', JStr ''doc-1'')])])
      else None)\<close>

definition example_env :: env where
  "example_env =
     \<lparr>JSON_parse = example_parse,
      Number_toString = (\<lambda>n. ''0''),
      plus_non_string = (\<lambda>a b. a),
      encodeURIComponent = (\<lambda>s. s),
      conversion_TypeError = ''Cannot convert object to primitive value'',
      extractSqlQuery = (\<lambda>d. Some None),
      extractVerificationInfo = (\<lambda>d. Some None),
      backendUrl = ''http://localhost:4000''\<rparr>"

definition idle :: hook_state where
  "idle = \<lparr>messages = [], isLoading = False, abortControllerRef = None\<rparr>"


text \<open>The conversation after \<open>n\<close> admitted turns.\<close>

fun turns :: "nat \<Rightarrow> ChatMessage list" where
  "turns 0 = []"
| "turns (Suc n) =
     append_pair (user_message (show_nat n) ''Hi'') (assistant_message (show_nat n)) (turns n)"

text \<open>A turn in which the same status message arrives twice.\<close>

definition status_twice :: "ChatMessage list" where
  \<open>status_twice =
     conversation (process_lines example_env ''0_assistant''
       \<lparr>assistantText = [], currentEvent = [], conversation = turns 1\<rparr>
       [''event: response.status'', ''data: {"message":"Planning"}'', '''',
        ''data: {"message":"Planning"}''])\<close>

text \<open>States, responses and runs the examples use.\<close>

definition example_ok_response :: "string list \<Rightarrow> thrown option \<Rightarrow> response" where
  "example_ok_response cs e =
     \<lparr>status_code = 200, statusText = ''OK'', content_type = Some ''text/event-stream'',
      json_result = Inl NonError, body = Some \<lparr>chunks = cs, ending = e\<rparr>\<rparr>"

definition status_then_network_loss :: fetch_result where
  \<open>status_then_network_loss =
     FetchResolves (example_ok_response
       [''event: response.status\<newline>data: {"message":"Planning"}\<newline>\<newline>'']
       (Some (ErrorObject ''TypeError'' True ''network error'' None)))\<close>

definition network_loss_conv :: "ChatMessage list" where
  "network_loss_conv =
     fst (try_block example_env ''0_assistant'' status_then_network_loss (turns 1))"

definition split_delta_chunks :: "string list" where
  \<open>split_delta_chunks =
     [''event: response.text.delta\<newline>da'', ''ta: {"text":"Hel"}\<newline>'']\<close>

definition example_annotation_payload :: json where
  "example_annotation_payload =
     JObj [(''annotation'',
       JObj [(''url'', JStr ''https://example.com/a''), (''doc_id'', JStr ''doc-1'')])]"

definition annotation_run :: "ChatMessage list" where
  \<open>annotation_run =
     conversation (process_lines example_env ''0_assistant''
       \<lparr>assistantText = [], currentEvent = [], conversation = turns 1\<rparr>
       [''event: response.text.annotation'',
        ''data: {"annotation":{"url":"https://example.com/a","doc_id":"doc-1"}}''])\<close>

definition error_parts_response :: "string \<Rightarrow> response" where
  "error_parts_response contentType =
     \<lparr>status_code = 500, statusText = ''Internal Server Error'',
      content_type = Some contentType,
      json_result = Inr (JObj [(''errorParts'', JArr [JStr ''A'', JStr ''B''])]),
      body = None\<rparr>"

definition aborted_error_body :: response where
  "aborted_error_body =
     \<lparr>status_code = 500, statusText = ''Internal Server Error'',
      content_type = Some ''application/json'',
      json_result = Inl (ErrorObject ''AbortError'' False ''The user aborted a request.'' None),
      body = None\<rparr>"

text \<open>The lines of a stream with two text-delta events, and its two chunks.\<close>

definition hello_lines :: "string list list" where
  \<open>hello_lines =
     [[''event: response.text.delta'', ''data: {"text":"Hel"}'', []],
      [''event: response.text.delta'', ''data: {"text":"lo"}'', [], ''data: [DONE]'']]\<close>

definition hello_chunks :: "string list" where
  \<open>hello_chunks =
     [''event: response.text.delta\<newline>data: {"text":"Hel"}\<newline>\<newline>'',
      ''event: response.text.delta\<newline>data: {"text":"lo"}\<newline>\<newline>data: [DONE]\<newline>'']\<close>

section \<open>Basic facts about the dispatcher and the framer\<close>

lemma truthy_opt_iff: "truthy_opt x \<longleftrightarrow> (\<exists>v. x = Some v \<and> truthy v)"
  by (cases x) auto

lemma handle_data_cases [consumes 1, case_names unchanged text_delta status tool thinking thinking_delta chart annotation]:
  assumes "handle_data env aid st d = Some st'"
  obtains
    "st' = st"
  | v t where "currentEvent st = ''response.text.delta''" "field d ''text'' = Some v" "truthy v"
      "to_string env v = Some t"
      "st' = update aid (text_delta_patch (assistantText st @ t))
               (st\<lparr>assistantText := assistantText st @ t\<rparr>)"
  | v where "currentEvent st = ''response.status''" "field d ''message'' = Some v" "truthy v"
      "st' = update aid (status_patch v) st"
  | q v where "currentEvent st = ''response.tool_result''" "extractSqlQuery env d = Some q"
      "extractVerificationInfo env d = Some v" "st' = update aid (tool_result_patch q v) st"
  | t where "currentEvent st = ''response.thinking''" "trim t \<noteq> []"
      "st' = update aid (thinking_patch (trim t)) st"
  | v where "currentEvent st = ''response.thinking.delta''" "field d ''text'' = Some v" "truthy v"
      "st' = update aid (thinking_delta_patch env v) st"
  | c where "currentEvent st = ''response.chart''" "st' = update aid (chart_patch c) st"
  | "currentEvent st = ''response.text.annotation''" "truthy d"
      "st' = update aid (annotation_patch env (make_annotation d)) st"
proof (cases "currentEvent st = ''response.text.delta''")
  case True
  with assms that(1,2) show ?thesis
    by (auto simp: handle_data_def event_and_def get_prop_def Let_def thinking_cond_def
        truthy_opt_iff split: if_splits option.splits bool.splits)
next
  case F1: False
  show ?thesis
  proof (cases "currentEvent st = ''response.status''")
    case True
    with assms that(1,3) show ?thesis
      by (auto simp: handle_data_def event_and_def get_prop_def Let_def thinking_cond_def
          getApiStatusMessage_def truthy_opt_iff split: if_splits option.splits bool.splits)
  next
    case F2: False
    show ?thesis
    proof (cases "currentEvent st = ''response.tool_result''")
      case True
      with assms that(1,4) show ?thesis
        by (auto simp: handle_data_def event_and_def get_prop_def Let_def thinking_cond_def
            truthy_opt_iff split: if_splits option.splits bool.splits)
    next
      case F3: False
      show ?thesis
      proof (cases "currentEvent st = ''response.thinking''")
        case True
        with assms that(1,5) show ?thesis
          by (auto simp: handle_data_def event_and_def get_prop_def Let_def thinking_cond_def
              truthy_opt_iff split: if_splits option.splits bool.splits json.splits)
      next
        case F4: False
        show ?thesis
        proof (cases "currentEvent st = ''response.thinking.delta''")
          case True
          with assms that(1,6) show ?thesis
            by (auto simp: handle_data_def event_and_def get_prop_def Let_def thinking_cond_def
                truthy_opt_iff split: if_splits option.splits bool.splits)
        next
          case F5: False
          show ?thesis
          proof (cases "currentEvent st = ''response.chart''")
            case True
            with assms that(1,7) show ?thesis
              by (auto simp: handle_data_def event_and_def get_prop_def Let_def
                  thinking_cond_def truthy_opt_iff split: if_splits option.splits bool.splits)
          next
            case F6: False
            with F1 F2 F3 F4 F5 assms that(1,8) show ?thesis
              by (auto simp: handle_data_def event_and_def get_prop_def Let_def
                  thinking_cond_def truthy_opt_iff split: if_splits option.splits bool.splits)
          qed
        qed
      qed
    qed
  qed
qed

lemma update_event [simp]: "currentEvent (update aid f st) = currentEvent st"
  by (simp add: update_def)

lemma update_text [simp]: "assistantText (update aid f st) = assistantText st"
  by (simp add: update_def)

lemma update_conversation [simp]:
  "conversation (update aid f st) = patch aid f (conversation st)"
  by (simp add: update_def)

lemma handle_data_event:
  "handle_data env aid st d = Some st' \<Longrightarrow> currentEvent st' = currentEvent st"
  by (erule handle_data_cases) simp_all

lemma handle_data_patch:
  assumes "handle_data env aid st d = Some st'"
  shows "conversation st' = conversation st \<or>
         (\<exists>f. is_patch env f \<and> conversation st' = patch aid f (conversation st))"
  using assms
  by (cases rule: handle_data_cases) (auto intro: is_patch.intros)

lemma process_line_patch:
  "conversation (process_line env aid st l) = conversation st \<or>
   (\<exists>f. is_patch env f \<and> conversation (process_line env aid st l) = patch aid f (conversation st))"
  unfolding process_line_def Let_def
  using handle_data_patch
  by (auto split: option.splits)

lemma event_line_not_data: "startsWith l ''event: '' \<Longrightarrow> \<not> startsWith l ''data: ''"
  by (cases l) auto

lemma process_line_event:
  "currentEvent (process_line env aid st l) =
     (if startsWith l ''event: '' then trim (drop 7 l) else currentEvent st)"
  unfolding process_line_def Let_def
  by (auto split: option.splits dest: handle_data_event)

lemma process_lines_snoc:
  "process_lines env aid st (ls @ [l]) = process_line env aid (process_lines env aid st ls) l"
  by (simp add: process_lines_def)

lemma process_lines_append:
  "process_lines env aid st (xs @ ys) = process_lines env aid (process_lines env aid st xs) ys"
  by (simp add: process_lines_def)

lemma process_lines_event:
  "currentEvent (process_lines env aid st ls) = last_declared (currentEvent st) ls"
proof (induction ls rule: rev_induct)
  case Nil
  show ?case by (simp add: process_lines_def last_declared_def)
next
  case (snoc l ls)
  show ?case
    using snoc.IH
    by (simp add: process_lines_snoc process_line_event last_declared_def Let_def)
qed

lemma split_nl_nonempty: "split_nl s \<noteq> []"
  by (induction s) (auto split: list.splits)

lemma split_nl_append:
  "split_nl (a @ b) = butlast (split_nl a) @ [last (split_nl a) @ hd (split_nl b)] @ tl (split_nl b)"
proof (induction a)
  case Nil
  then show ?case using split_nl_nonempty[of b] by (cases "split_nl b") auto
next
  case (Cons c a)
  then show ?case using split_nl_nonempty[of a] split_nl_nonempty[of "a @ b"]
    by (cases "split_nl a"; cases "split_nl (a @ b)") (auto split: list.splits if_splits)
qed

lemma read_loop_lines:
  "read_loop env aid st cs = process_lines env aid st (concat (map split_nl cs))"
  by (induction cs arbitrary: st) (simp_all add: read_loop_def process_chunk_def process_lines_def)

section \<open>The event framer\<close>

text \<open>
  Claim C2. While the framer works through a stream of lines, the event name it holds is
  the one of the most recent declaration line (\<open>last_declared\<close>), whatever lines came in
  between; the next line is processed under that name; a declaration line does nothing but
  set the name; no other line, blank or not, changes it; and a data line with a payload
  that parses is handed to the dispatcher under the name held.
\<close>

theorem framer_attribution:
  "currentEvent (process_lines env aid st pre) = last_declared (currentEvent st) pre \<and>
   process_lines env aid st (pre @ [l]) = process_line env aid (process_lines env aid st pre) l \<and>
   (startsWith l ''event: '' \<longrightarrow>
      process_line env aid s l = s\<lparr>currentEvent := trim (drop 7 l)\<rparr>) \<and>
   (\<not> startsWith l ''event: '' \<longrightarrow>
      currentEvent (process_line env aid s l) = currentEvent s) \<and>
   (startsWith l ''data: '' \<and> trim (drop 6 l) \<noteq> [] \<and> trim (drop 6 l) \<noteq> ''[DONE]'' \<and>
    JSON_parse env (trim (drop 6 l)) = Some data \<longrightarrow>
      process_line env aid s l =
        (case handle_data env aid s data of None \<Rightarrow> s | Some s' \<Rightarrow> s'))"
proof -
  have "startsWith l ''data: '' \<longrightarrow> \<not> startsWith l ''event: ''"
    using event_line_not_data by blast
  then show ?thesis
    by (simp add: process_lines_event process_lines_snoc process_line_event)
      (auto simp: process_line_def)
qed

theorem framer_attribution_witness:
  \<open>currentEvent (process_lines example_env ''0_assistant''
      \<lparr>assistantText = [], currentEvent = [], conversation = []\<rparr>
      [''event: response.status'', [], ''data: {}'', '': keep-alive'']) = ''response.status'' \<and>
   startsWith ''event: response.chart '' ''event: '' \<and>
   process_line example_env ''0_assistant''
      \<lparr>assistantText = [], currentEvent = ''response.status'', conversation = []\<rparr>
      ''event: response.chart '' =
      \<lparr>assistantText = [], currentEvent = ''response.chart'', conversation = []\<rparr> \<and>
   startsWith ''data: {"message":"Planning"}'' ''data: '' \<and>
   JSON_parse example_env (trim (drop 6 ''data: {"message":"Planning"}'')) =
     Some (JObj [(''message'', JStr ''Planning'')]) \<and>
   map thinkingSteps (conversation (process_line example_env ''0_assistant''
      \<lparr>assistantText = [], currentEvent = ''response.status'', conversation = turns 1\<rparr>
      ''data: {"message":"Planning"}'')) = [None, Some [JStr ''Planning'']]\<close>
proof -
  have a: \<open>currentEvent (process_lines example_env ''0_assistant''
      \<lparr>assistantText = [], currentEvent = [], conversation = []\<rparr>
      [''event: response.status'', [], ''data: {}'', '': keep-alive'']) = ''response.status''\<close>
    using framer_attribution [of example_env "''0_assistant''"
      "\<lparr>assistantText = [], currentEvent = [], conversation = []\<rparr>"
      "[''event: response.status'', [], ''data: {}'', '': keep-alive'']"]
    by (simp add: last_declared_def trim_def white_space_def strip_leading.simps)
  have b: "startsWith ''event: response.chart '' ''event: ''" by simp
  have c: "process_line example_env ''0_assistant''
      \<lparr>assistantText = [], currentEvent = ''response.status'', conversation = []\<rparr>
      ''event: response.chart '' =
      \<lparr>assistantText = [], currentEvent = ''response.chart'', conversation = []\<rparr>"
    by code_simp
  have d: \<open>startsWith ''data: {"message":"Planning"}'' ''data: ''\<close> by simp
  have e: \<open>JSON_parse example_env (trim (drop 6 ''data: {"message":"Planning"}'')) =
     Some (JObj [(''message'', JStr ''Planning'')])\<close>
    by code_simp
  have f: \<open>map thinkingSteps (conversation (process_line example_env ''0_assistant''
      \<lparr>assistantText = [], currentEvent = ''response.status'', conversation = turns 1\<rparr>
      ''data: {"message":"Planning"}'')) = [None, Some [JStr ''Planning'']]\<close>
    by code_simp
  from a b c d e f show ?thesis by (simp only: simp_thms)
qed

section \<open>The bounded conversation\<close>

lemma length_patch [simp]: "length (patch aid f xs) = length xs"
  by (simp add: patch_def)

lemma is_patch_id: "is_patch env f \<Longrightarrow> msg_id (f m) = msg_id m"
  by (induction rule: is_patch.induct)
    (simp_all add: text_delta_patch_def status_patch_def tool_result_patch_def
      thinking_patch_def thinking_delta_patch_def chart_patch_def annotation_patch_def
      finalize_patch_def error_patch_def Let_def)

lemma is_patch_sender: "is_patch env f \<Longrightarrow> sender (f m) = sender m"
  by (induction rule: is_patch.induct)
    (simp_all add: text_delta_patch_def status_patch_def tool_result_patch_def
      thinking_patch_def thinking_delta_patch_def chart_patch_def annotation_patch_def
      finalize_patch_def error_patch_def Let_def)

lemma reachable_invariant [consumes 1, case_names empty admit patch]:
  assumes r: "reachable env c"
    and e: "Q []"
    and a: "\<And>prev now message. Q prev \<Longrightarrow>
           Q (append_pair (user_message (show_nat now) message)
                (assistant_message (show_nat now)) prev)"
    and p: "\<And>prev aid f. Q prev \<Longrightarrow> is_patch env f \<Longrightarrow> Q (patch aid f prev)"
  shows "Q c"
  using r
proof (induction rule: reachable.induct)
  case initial
  show ?case by (rule e)
next
  case (admit prev now message)
  from admit.IH show ?case by (rule a)
next
  case (event st aid line)
  from event.IH process_line_patch [of env aid st line] p show ?case by auto
next
  case (finalize prev aid t)
  from finalize.IH show ?case by (rule p) (rule p_finalize)
next
  case (failure prev aid e)
  from failure.IH show ?case unfolding catch_block_def by (rule p) (rule p_error)
next
  case (clear prev)
  show ?case by (rule e)
qed

lemma reachable_process_lines:
  "reachable env (conversation st) \<Longrightarrow>
   reachable env (conversation (process_lines env aid st ls))"
proof (induction ls rule: rev_induct)
  case Nil
  then show ?case by (simp add: process_lines_def)
next
  case (snoc l ls)
  then show ?case by (simp add: process_lines_snoc reachable.event)
qed

lemma paired_even: "paired xs \<Longrightarrow> even (length xs)"
  by (induction xs rule: paired.induct) auto

lemma paired_append: "paired xs \<Longrightarrow> paired ys \<Longrightarrow> paired (xs @ ys)"
  by (induction xs rule: paired.induct) auto

lemma paired_patch:
  assumes "\<And>m. msg_id (f m) = msg_id m" "\<And>m. sender (f m) = sender m"
  shows "paired (patch aid f xs) = paired xs"
  by (induction xs rule: paired.induct) (simp_all add: patch_def is_pair_def assms)

lemma is_pair_admitted:
  "is_pair (user_message messageId message) (assistant_message messageId)"
  by (simp add: is_pair_def user_message_def assistant_message_def)

lemma append_pair_small:
  "length prev + 2 \<le> MAX_MESSAGES \<Longrightarrow> append_pair u a prev = prev @ [u, a]"
  by (simp add: append_pair_def)

lemma append_pair_full:
  assumes "paired prev" "length prev \<le> MAX_MESSAGES" "MAX_MESSAGES < length prev + 2"
  shows "\<exists>u0 a0 rest. prev = u0 # a0 # rest \<and> is_pair u0 a0 \<and> paired rest \<and>
           append_pair u a prev = rest @ [u, a]"
proof -
  from assms(1) have "even (length prev)" by (rule paired_even)
  with assms(2,3) have len: "length prev = 100"
    unfolding MAX_MESSAGES_def by presburger
  then obtain u0 a0 rest where prev: "prev = u0 # a0 # rest"
    by (cases prev rule: paired.cases) auto
  with assms(1) have "is_pair u0 a0" "paired rest" by simp_all
  moreover from len prev have "append_pair u a prev = rest @ [u, a]"
    by (simp add: append_pair_def MAX_MESSAGES_def)
  ultimately show ?thesis using prev by blast
qed

lemma length_append_pair: "length (append_pair u a prev) \<le> MAX_MESSAGES"
  by (simp add: append_pair_def Let_def MAX_MESSAGES_def)

lemma reachable_bounded_paired:
  "reachable env c \<Longrightarrow> length c \<le> MAX_MESSAGES \<and> paired c"
proof (induction rule: reachable_invariant)
  case empty
  show ?case by simp
next
  case (admit prev now message)
  let ?u = "user_message (show_nat now) message"
  let ?a = "assistant_message (show_nat now)"
  have pair: "paired [?u, ?a]" by (simp add: is_pair_admitted)
  show ?case
  proof (cases "length prev + 2 \<le> MAX_MESSAGES")
    case True
    with admit pair show ?thesis
      by (simp add: append_pair_small paired_append length_append_pair)
  next
    case False
    with admit append_pair_full [of prev ?u ?a]
    obtain rest where "paired rest" "append_pair ?u ?a prev = rest @ [?u, ?a]"
      by auto
    with pair show ?thesis
      using length_append_pair [of ?u ?a prev] by (simp add: paired_append)
  qed
next
  case (patch prev aid f)
  then show ?case by (simp add: paired_patch is_patch_id is_patch_sender)
qed

lemma reachable_turns: "reachable env (turns n)"
  by (induction n) (auto intro: reachable.intros)

lemma length_turns: "length (turns n) = min (2 * n) MAX_MESSAGES"
  by (induction n) (auto simp: append_pair_def Let_def MAX_MESSAGES_def)

text \<open>
  Claim C3. Whatever sequence of admissions, stream updates, finalizations, failures and
  clearings has produced the conversation, it holds at most 100 messages, and so does the
  conversation after the next admission. If the new pair fits, it is appended; if it does
  not, the conversation starts with a user/assistant pair of one turn, exactly that pair
  is removed, and all later messages are kept in order in front of the new pair.
\<close>

theorem conversation_bounded:
  assumes "reachable env prev"
  shows "length prev \<le> MAX_MESSAGES \<and>
         length (append_pair u a prev) \<le> MAX_MESSAGES \<and>
         (length prev + 2 \<le> MAX_MESSAGES \<longrightarrow> append_pair u a prev = prev @ [u, a]) \<and>
         (MAX_MESSAGES < length prev + 2 \<longrightarrow>
            (\<exists>u0 a0 rest. prev = u0 # a0 # rest \<and> is_pair u0 a0 \<and>
               append_pair u a prev = rest @ [u, a]))"
  using reachable_bounded_paired [OF assms] append_pair_full [of prev u a]
  by (auto simp: length_append_pair append_pair_small)

theorem conversation_bounded_witness:
  "reachable example_env (turns 50) \<and> length (turns 50) = 100 \<and>
   (\<exists>u0 a0 rest. turns 50 = u0 # a0 # rest \<and> is_pair u0 a0 \<and>
      turns 51 = rest @ [user_message ''50'' ''Hi'', assistant_message ''50''])"
proof -
  have r: "reachable example_env (turns 50)" by (rule reachable_turns)
  have l: "length (turns 50) = 100" by (simp add: length_turns MAX_MESSAGES_def)
  have s: "show_nat 50 = ''50''" by code_simp
  have t: "turns 51 = append_pair (user_message ''50'' ''Hi'') (assistant_message ''50'') (turns 50)"
    using s turns.simps(2) [of 50] by simp
  from conversation_bounded [OF r, of "user_message ''50'' ''Hi''" "assistant_message ''50''"] l t r
  show ?thesis by (simp add: MAX_MESSAGES_def)
qed

section \<open>The step list\<close>

lemma or_empty_simps [simp]: "or_empty None = []" "or_empty (Some xs) = xs"
  by (simp_all add: or_empty_def)

lemma add_step_eq:
  "add_step v m =
     (if is_primitive v \<and> v \<in> set (or_empty (thinkingSteps m)) then thinkingSteps m
      else Some (or_empty (thinkingSteps m) @ [v]))"
  by (simp add: add_step_def array_includes_def)

lemma add_step_distinct:
  assumes "distinct (step_labels m)"
  shows "distinct (filter is_primitive (or_empty (add_step v m)))"
proof (cases "is_primitive v \<and> v \<in> set (or_empty (thinkingSteps m))")
  case True
  then have "add_step v m = thinkingSteps m" by (simp add: add_step_eq)
  with assms show ?thesis by (simp add: step_labels_def)
next
  case False
  then have "or_empty (add_step v m) = or_empty (thinkingSteps m) @ [v]"
    by (simp add: add_step_eq)
  with False assms show ?thesis by (auto simp: step_labels_def)
qed

lemma is_patch_steps:
  assumes "is_patch env f" "distinct (step_labels m)"
  shows "distinct (step_labels (f m))"
  using assms
proof (induction rule: is_patch.induct)
  case (p_status v)
  then show ?case
    using add_step_distinct [of m v] by (simp add: status_patch_def step_labels_def)
next
  case (p_tool q v)
  then show ?case
    using add_step_distinct [of m "JStr PROCESSING_RESULTS"]
    by (simp add: tool_result_patch_def step_labels_def Let_def)
qed (simp_all add: text_delta_patch_def thinking_patch_def thinking_delta_patch_def
      chart_patch_def annotation_patch_def finalize_patch_def error_patch_def
      step_labels_def Let_def)

lemma set_append_pair: "set (append_pair u a prev) \<subseteq> insert u (insert a (set prev))"
  by (auto simp: append_pair_def Let_def dest: in_set_dropD)

lemma reachable_steps: "reachable env c \<Longrightarrow> \<forall>m\<in>set c. distinct (step_labels m)"
proof (induction rule: reachable_invariant)
  case empty
  show ?case by simp
next
  case (admit prev now message)
  have "distinct (step_labels (user_message (show_nat now) message))"
    "distinct (step_labels (assistant_message (show_nat now)))"
    by (simp_all add: step_labels_def user_message_def assistant_message_def)
  with admit set_append_pair show ?case by blast
next
  case (patch prev aid f)
  then show ?case by (auto simp: patch_def is_patch_steps)
qed

lemma status_twice_steps: "map thinkingSteps status_twice = [None, Some [JStr ''Planning'']]"
  unfolding status_twice_def
  by code_simp

text \<open>
  Claim C7. In every conversation the hook can hold, the step list of every message has
  no two equal labels, whatever status-update and tool-result events (and other updates)
  have been applied. Both event kinds append their label only if the list does not hold
  it yet, and leave the list as it is otherwise. The labels are the primitive values
  (strings, as the type declares); an object or array is a reference of its own. A step
  list that holds only primitive values, as its type says, has no duplicates at all.
\<close>

theorem steps_never_duplicated:
  assumes "reachable env conv" "m \<in> set conv"
  shows "distinct (step_labels m) \<and>
         (list_all is_primitive (or_empty (thinkingSteps m)) \<longrightarrow>
            distinct (or_empty (thinkingSteps m))) \<and>
         (is_primitive v \<longrightarrow>
            thinkingSteps (status_patch v m) =
              (if v \<in> set (or_empty (thinkingSteps m)) then thinkingSteps m
               else Some (or_empty (thinkingSteps m) @ [v]))) \<and>
         thinkingSteps (tool_result_patch q vi m) =
           (if JStr PROCESSING_RESULTS \<in> set (or_empty (thinkingSteps m)) then thinkingSteps m
            else Some (or_empty (thinkingSteps m) @ [JStr PROCESSING_RESULTS]))"
proof -
  have d: "distinct (step_labels m)"
    using reachable_steps [OF assms(1)] assms(2) by blast
  have "list_all is_primitive (or_empty (thinkingSteps m)) \<longrightarrow>
          step_labels m = or_empty (thinkingSteps m)"
    by (simp add: step_labels_def list_all_iff)
  with d show ?thesis
    by (auto simp: status_patch_def tool_result_patch_def add_step_eq Let_def)
qed

theorem steps_never_duplicated_witness:
  "reachable example_env status_twice \<and> last status_twice \<in> set status_twice \<and>
   thinkingSteps (last status_twice) = Some [JStr ''Planning''] \<and>
   distinct (step_labels (last status_twice))"
proof -
  have r: "reachable example_env status_twice"
    unfolding status_twice_def
    by (rule reachable_process_lines) (simp add: reachable_turns del: turns.simps)
  have n: "status_twice \<noteq> []" using status_twice_steps by auto
  then have i: "last status_twice \<in> set status_twice" by simp
  have "thinkingSteps (last status_twice) = last (map thinkingSteps status_twice)"
    using n by (simp add: last_map)
  then have t: "thinkingSteps (last status_twice) = Some [JStr ''Planning'']"
    by (simp add: status_twice_steps)
  from steps_never_duplicated [OF r i] have "distinct (step_labels (last status_twice))"
    by blast
  with r i t show ?thesis by (simp only: simp_thms)
qed

section \<open>Turn admission\<close>

text \<open>
  The guard of line 21 refuses a text that is empty after trimming, and refuses every text
  when the loading flag the callback reads is set.
\<close>

lemma guard_refuses:
  assumes "trim message = [] \<or> isLoading st"
  shows "sendMessage env selectedAgent now net st message = (st, None) \<and>
         begin_turn now st message = st"
  using assms by (auto simp: sendMessage_def begin_turn_def admitted_def)

text \<open>
  Claim C8, at the input where it fails. A first call has been admitted and is awaiting
  its response: the loading flag is set and the controller is in the ref. A second call
  made through the same callback, which was created at the render before and has captured
  the flag unset, is admitted: the conversation grows from two to four messages and a
  second request is issued.
\<close>

theorem stale_callback_admits_second_turn:
  "isLoading (begin_turn 7 idle ''Hi'') \<and>
   abortControllerRef (begin_turn 7 idle ''Hi'') = Some (AbortController False) \<and>
   length (messages (begin_turn 7 idle ''Hi'')) = 2 \<and>
   length (messages (begin_turn 8
      (through_callback (isLoading idle) (begin_turn 7 idle ''Hi'')) ''Again'')) = 4 \<and>
   snd (sendMessage example_env ''agent'' 8 status_then_network_loss
      (through_callback (isLoading idle) (begin_turn 7 idle ''Hi'')) ''Again'') =
     Some \<lparr>endpoint = ''http://localhost:4000/api/agents/agent/messages'',
           request_text = ''Again''\<rparr>"
  by code_simp


section \<open>What a failure leaves in place\<close>

text \<open>
  Claim C9. When the \<^verbatim>\<open>try\<close> block of a turn is left by an exception, with the conversation
  \<open>conv\<close> accumulated up to then, the turn ends with a conversation of the same length in
  which every message addressed by the assistant id has an empty display text and status
  error, and the timeline, step list, reasoning texts, sql queries, charts and annotations
  it had in \<open>conv\<close>; every message with another id is the one of \<open>conv\<close>.
\<close>

lemma retained_error_patch: "retained m (error_patch e m)"
  by (simp add: retained_def error_patch_def)

theorem failure_keeps_collections:
  assumes "try_block env aid net prev = (conv, Some e)"
  shows "length (run_turn env aid net prev) = length conv \<and>
         (\<forall>i<length conv.
            (msg_id (conv ! i) = aid \<longrightarrow>
               msg_text (run_turn env aid net prev ! i) = [] \<and>
               status (run_turn env aid net prev ! i) = Some Failed \<and>
               retained (conv ! i) (run_turn env aid net prev ! i)) \<and>
            (msg_id (conv ! i) \<noteq> aid \<longrightarrow> run_turn env aid net prev ! i = conv ! i))"
  using assms
  by (simp add: run_turn_def catch_block_def patch_def retained_error_patch)
    (simp add: error_patch_def)


theorem failure_keeps_collections_witness:
  "try_block example_env ''0_assistant'' status_then_network_loss (turns 1) =
     (network_loss_conv, Some (ErrorObject ''TypeError'' True ''network error'' None)) \<and>
   map msg_id network_loss_conv = [''0_user'', ''0_assistant''] \<and>
   timeline (network_loss_conv ! 1) =
     Some [\<lparr>entry_type = TStatus, content = JStr ''Planning''\<rparr>] \<and>
   retained (network_loss_conv ! 1)
     (run_turn example_env ''0_assistant'' status_then_network_loss (turns 1) ! 1) \<and>
   msg_text (run_turn example_env ''0_assistant'' status_then_network_loss (turns 1) ! 1) = [] \<and>
   run_turn example_env ''0_assistant'' status_then_network_loss (turns 1) ! 0 =
     network_loss_conv ! 0"
proof -
  have h: "try_block example_env ''0_assistant'' status_then_network_loss (turns 1) =
     (network_loss_conv, Some (ErrorObject ''TypeError'' True ''network error'' None))"
    unfolding network_loss_conv_def by code_simp
  have ids: "map msg_id network_loss_conv = [''0_user'', ''0_assistant'']"
    unfolding network_loss_conv_def by code_simp
  have tl: "timeline (network_loss_conv ! 1) =
     Some [\<lparr>entry_type = TStatus, content = JStr ''Planning''\<rparr>]"
    unfolding network_loss_conv_def by code_simp
  have len: "length network_loss_conv = 2"
    unfolding network_loss_conv_def by code_simp
  have i0: "msg_id (network_loss_conv ! 0) \<noteq> ''0_assistant''"
    unfolding network_loss_conv_def by code_simp
  have i1: "msg_id (network_loss_conv ! 1) = ''0_assistant''"
    unfolding network_loss_conv_def by code_simp
  note inst = failure_keeps_collections [OF h]
  from inst have q: "\<And>i. i < length network_loss_conv \<Longrightarrow>
     (msg_id (network_loss_conv ! i) = ''0_assistant'' \<longrightarrow>
        msg_text (run_turn example_env ''0_assistant'' status_then_network_loss (turns 1) ! i) = [] \<and>
        status (run_turn example_env ''0_assistant'' status_then_network_loss (turns 1) ! i) = Some Failed \<and>
        retained (network_loss_conv ! i)
          (run_turn example_env ''0_assistant'' status_then_network_loss (turns 1) ! i)) \<and>
     (msg_id (network_loss_conv ! i) \<noteq> ''0_assistant'' \<longrightarrow>
        run_turn example_env ''0_assistant'' status_then_network_loss (turns 1) ! i =
          network_loss_conv ! i)"
    by blast
  have l0: "0 < length network_loss_conv" and l1: "1 < length network_loss_conv"
    using len by (simp_all only: zero_less_numeral one_less_numeral_iff semiring_norm)
  from q [OF l1] i1 have a: "msg_text (run_turn example_env ''0_assistant'' status_then_network_loss (turns 1) ! 1) = []"
    and b: "retained (network_loss_conv ! 1)
          (run_turn example_env ''0_assistant'' status_then_network_loss (turns 1) ! 1)"
    by blast+
  from q [OF l0] i0 have c: "run_turn example_env ''0_assistant'' status_then_network_loss (turns 1) ! 0 =
          network_loss_conv ! 0"
    by blast
  from h ids tl a b c show ?thesis by (simp only: simp_thms)
qed

section \<open>Framing per chunk\<close>

lemma split_nl_no_NL: "NL \<notin> set s \<Longrightarrow> split_nl s = [s]"
  by (induction s) auto

lemma split_nl_at_NL: "NL \<notin> set a \<Longrightarrow> split_nl (a @ NL # b) = a # split_nl b"
  using split_nl_nonempty [of b]
  by (induction a) (auto split: list.splits)

lemma split_nl_join:
  "ls \<noteq> [] \<Longrightarrow> \<forall>l\<in>set ls. NL \<notin> set l \<Longrightarrow> split_nl (join_with [NL] ls) = ls"
proof (induction "[NL]" ls rule: join_with.induct)
  case 1
  then show ?case by simp
next
  case (2 x)
  then show ?case by (simp add: split_nl_no_NL)
next
  case (3 x y ys)
  then show ?case by (simp add: split_nl_at_NL)
qed

lemma split_nl_terminated:
  "\<forall>l\<in>set ls. NL \<notin> set l \<Longrightarrow> split_nl (terminated_lines ls) = ls @ [[]]"
  by (induction ls) (simp_all add: terminated_lines_def split_nl_at_NL)

lemma join_with_fragments:
  "join_with sep (xs @ [a]) @ join_with sep (b # ys) = join_with sep (xs @ [a @ b] @ ys)"
proof (induction sep xs rule: join_with.induct)
  case (1 sep)
  show ?case by (cases ys) simp_all
next
  case (2 sep x)
  show ?case by (cases ys) simp_all
next
  case (3 sep x y zs)
  then show ?case by simp
qed

lemma process_line_empty: "process_line env aid st [] = st"
  by (simp add: process_line_def)

lemma process_line_other:
  "\<not> startsWith l ''event: '' \<Longrightarrow> \<not> startsWith l ''data: '' \<Longrightarrow> process_line env aid st l = st"
  by (simp add: process_line_def)

lemma process_chunk_joined:
  "ls \<noteq> [] \<Longrightarrow> \<forall>l\<in>set ls. NL \<notin> set l \<Longrightarrow>
   process_chunk env aid st (join_with [NL] ls) = process_lines env aid st ls"
  by (simp add: process_chunk_def split_nl_join)

lemma process_chunk_terminated:
  "\<forall>l\<in>set ls. NL \<notin> set l \<Longrightarrow>
   process_chunk env aid st (terminated_lines ls) = process_lines env aid st ls"
  by (simp add: process_chunk_def split_nl_terminated process_lines_def process_line_empty)

lemma read_loop_terminated:
  "\<forall>g\<in>set groups. \<forall>l\<in>set g. NL \<notin> set l \<Longrightarrow>
   read_loop env aid st (map terminated_lines groups) = process_lines env aid st (concat groups)"
proof (induction groups arbitrary: st)
  case Nil
  show ?case by (simp add: read_loop_def process_lines_def)
next
  case (Cons g groups)
  have "read_loop env aid st (map terminated_lines (g # groups)) =
          read_loop env aid (process_chunk env aid st (terminated_lines g))
            (map terminated_lines groups)"
    by (simp add: read_loop_def)
  with Cons show ?case
    by (simp add: process_chunk_terminated process_lines_append)
qed

text \<open>
  Claim C10. Each chunk is split at its newlines on its own, with nothing carried over to
  the next chunk. Let the stream hold the lines \<open>xs\<close>, then a line \<open>a @ b\<close>, then the lines
  \<open>ys\<close>, separated by newlines, and let a read end after \<open>a\<close>: the first chunk is the lines
  \<open>xs\<close> and \<open>a\<close>, the second the lines \<open>b\<close> and \<open>ys\<close>. Then the framer processes \<open>xs\<close>, then
  \<open>a\<close>, then \<open>b\<close>, then \<open>ys\<close>: the two fragments are lines of their own, although the two
  chunks together are the text whose line is \<open>a @ b\<close>, which a single chunk would have
  delivered whole. A fragment that starts with neither prefix is dropped.
\<close>

theorem framing_is_per_chunk:
  assumes "\<forall>l \<in> set xs \<union> set ys \<union> {a, b}. NL \<notin> set l"
  shows "read_loop env aid st (join_with [NL] (xs @ [a]) # join_with [NL] (b # ys) # cs) =
           read_loop env aid (process_lines env aid st (xs @ [a, b] @ ys)) cs \<and>
         join_with [NL] (xs @ [a]) @ join_with [NL] (b # ys) =
           join_with [NL] (xs @ [a @ b] @ ys) \<and>
         process_chunk env aid st (join_with [NL] (xs @ [a @ b] @ ys)) =
           process_lines env aid st (xs @ [a @ b] @ ys) \<and>
         (\<not> startsWith a ''event: '' \<and> \<not> startsWith a ''data: '' \<longrightarrow>
            process_line env aid st a = st)"
proof -
  have c1: "process_chunk env aid st (join_with [NL] (xs @ [a])) =
              process_lines env aid st (xs @ [a])"
    using assms by (intro process_chunk_joined) auto
  have c2: "\<And>s. process_chunk env aid s (join_with [NL] (b # ys)) =
              process_lines env aid s (b # ys)"
    using assms by (intro process_chunk_joined) auto
  have "read_loop env aid st (join_with [NL] (xs @ [a]) # join_with [NL] (b # ys) # cs) =
          read_loop env aid
            (process_chunk env aid (process_chunk env aid st (join_with [NL] (xs @ [a])))
               (join_with [NL] (b # ys))) cs"
    by (simp add: read_loop_def)
  also have "\<dots> = read_loop env aid (process_lines env aid st ((xs @ [a]) @ (b # ys))) cs"
    by (simp only: c1 c2 process_lines_append)
  finally have r: "read_loop env aid st (join_with [NL] (xs @ [a]) # join_with [NL] (b # ys) # cs) =
           read_loop env aid (process_lines env aid st (xs @ [a, b] @ ys)) cs"
    by simp
  have w: "process_chunk env aid st (join_with [NL] (xs @ [a @ b] @ ys)) =
           process_lines env aid st (xs @ [a @ b] @ ys)"
    using assms by (intro process_chunk_joined) auto
  from r w show ?thesis
    by (simp add: join_with_fragments process_line_other)
qed

theorem framing_is_per_chunk_witness:
  \<open>NL \<notin> set (concat [''event: response.text.delta'', [], ''da'', ''ta: {"text":"Hel"}'']) \<and>
   split_delta_chunks =
     [join_with [NL] ([''event: response.text.delta''] @ [''da'']),
      join_with [NL] (''ta: {"text":"Hel"}'' # [[]])] \<and>
   read_loop example_env ''0_assistant''
      \<lparr>assistantText = [], currentEvent = [], conversation = turns 1\<rparr> split_delta_chunks =
     process_lines example_env ''0_assistant''
      \<lparr>assistantText = [], currentEvent = [], conversation = turns 1\<rparr>
      [''event: response.text.delta'', ''da'', ''ta: {"text":"Hel"}'', []] \<and>
   assistantText (read_loop example_env ''0_assistant''
      \<lparr>assistantText = [], currentEvent = [], conversation = turns 1\<rparr> split_delta_chunks) = [] \<and>
   assistantText (process_chunk example_env ''0_assistant''
      \<lparr>assistantText = [], currentEvent = [], conversation = turns 1\<rparr>
      (concat split_delta_chunks)) = ''Hel''\<close>
proof -
  have h: \<open>\<forall>l \<in> set [''event: response.text.delta''] \<union> set [[]] \<union> {''da'', ''ta: {"text":"Hel"}''}.
      NL \<notin> set l\<close>
    by (simp add: NL_def)
  have e: \<open>split_delta_chunks =
     [join_with [NL] ([''event: response.text.delta''] @ [''da'']),
      join_with [NL] (''ta: {"text":"Hel"}'' # [[]])]\<close>
    by code_simp
  from framing_is_per_chunk [OF h, of example_env "''0_assistant''"
      "\<lparr>assistantText = [], currentEvent = [], conversation = turns 1\<rparr>" "[]"]
  have r: \<open>read_loop example_env ''0_assistant''
      \<lparr>assistantText = [], currentEvent = [], conversation = turns 1\<rparr> split_delta_chunks =
     process_lines example_env ''0_assistant''
      \<lparr>assistantText = [], currentEvent = [], conversation = turns 1\<rparr>
      [''event: response.text.delta'', ''da'', ''ta: {"text":"Hel"}'', []]\<close>
    unfolding e by (simp add: read_loop_def del: turns.simps)
  have l: "assistantText (read_loop example_env ''0_assistant''
      \<lparr>assistantText = [], currentEvent = [], conversation = turns 1\<rparr> split_delta_chunks) = []"
    by code_simp
  have w: "assistantText (process_chunk example_env ''0_assistant''
      \<lparr>assistantText = [], currentEvent = [], conversation = turns 1\<rparr>
      (concat split_delta_chunks)) = ''Hel''"
    by code_simp
  have h': \<open>NL \<notin> set (concat [''event: response.text.delta'', [], ''da'', ''ta: {"text":"Hel"}''])\<close>
    by (simp add: NL_def)
  from h' e r l w show ?thesis by (simp only: simp_thms)
qed


section \<open>Annotations\<close>

text \<open>
  The payload of the example carries both an explicit \<^verbatim>\<open>url\<close> and a \<^verbatim>\<open>doc_id\<close>: the stored
  annotation has the \<^verbatim>\<open>doc_id\<close> as its url, not the explicit one.
\<close>

theorem annotation_url_counterexample:
  "field (annotationData_of example_annotation_payload) ''url'' =
     Some (JStr ''https://example.com/a'') \<and>
   url (make_annotation example_annotation_payload) = Some (JStr ''doc-1'') \<and>
   url (make_annotation example_annotation_payload) \<noteq>
     field (annotationData_of example_annotation_payload) ''url'' \<and>
   map url (or_empty (annotations (last annotation_run))) = [Some (JStr ''doc-1'')]"
  unfolding annotation_run_def example_annotation_payload_def by code_simp

text \<open>
  Claim C6, as amended. For every annotation event with a truthy payload the annotation
  built from it is appended to the annotations of the addressed message; its type is
  \<^verbatim>\<open>citation\<close> when the payload gives none and the payload's type when that is truthy; and
  its url is always the document identifier of the payload, as is its \<^verbatim>\<open>doc_id\<close>: an explicit
  \<^verbatim>\<open>url\<close> of the payload is not read.
\<close>

theorem annotation_normalized:
  assumes "truthy data" "currentEvent st = ''response.text.annotation''"
  shows "handle_data env aid st data =
           Some (update aid (annotation_patch env (make_annotation data)) st) \<and>
         annotations (annotation_patch env (make_annotation data) m) =
           Some (or_empty (annotations m) @ [make_annotation data]) \<and>
         (field (annotationData_of data) ''type'' = None \<longrightarrow>
            ann_type (make_annotation data) = JStr ''citation'') \<and>
         (truthy_opt (field (annotationData_of data) ''type'') \<longrightarrow>
            Some (ann_type (make_annotation data)) = field (annotationData_of data) ''type'') \<and>
         url (make_annotation data) = field (annotationData_of data) ''doc_id'' \<and>
         doc_id (make_annotation data) = field (annotationData_of data) ''doc_id''"
proof -
  have "data \<noteq> JNull" using assms(1) by auto
  then have "handle_data env aid st data =
           Some (update aid (annotation_patch env (make_annotation data)) st)"
    using assms(1,2)
    by (simp add: handle_data_def event_and_def thinking_cond_def get_prop_def)
  then show ?thesis
    by (auto simp: annotation_patch_def make_annotation_def Let_def truthy_opt_iff)
qed

theorem annotation_normalized_witness:
  "truthy example_annotation_payload \<and>
   field (annotationData_of example_annotation_payload) ''type'' = None \<and>
   ann_type (make_annotation example_annotation_payload) = JStr ''citation'' \<and>
   url (make_annotation example_annotation_payload) = Some (JStr ''doc-1'')"
proof -
  have t: "truthy example_annotation_payload"
    by (simp add: example_annotation_payload_def)
  have e: "currentEvent \<lparr>assistantText = [], currentEvent = ''response.text.annotation'',
             conversation = []\<rparr> = ''response.text.annotation''"
    by simp
  have n: "field (annotationData_of example_annotation_payload) ''type'' = None"
    by (simp add: example_annotation_payload_def annotationData_of_def)
  have d: "field (annotationData_of example_annotation_payload) ''doc_id'' = Some (JStr ''doc-1'')"
    by (simp add: example_annotation_payload_def annotationData_of_def)
  note inst = annotation_normalized [OF t e, of example_env "''0_assistant''" "assistant_message ''0''"]
  from inst n have a: "ann_type (make_annotation example_annotation_payload) = JStr ''citation''"
    by blast
  from inst d have u: "url (make_annotation example_annotation_payload) = Some (JStr ''doc-1'')"
    by (simp only:)
  from t n a u show ?thesis by (simp only: simp_thms)
qed

section \<open>The message a turn ends with\<close>

lemma map_id_patch:
  "(\<And>m. msg_id (f m) = msg_id m) \<Longrightarrow> map msg_id (patch aid f xs) = map msg_id xs"
  by (simp add: patch_def)

lemma last_patch:
  "xs \<noteq> [] \<Longrightarrow>
   last (patch aid f xs) = (if msg_id (last xs) = aid then f (last xs) else last xs)"
  by (simp add: patch_def last_map)

lemma process_line_ids:
  "map msg_id (conversation (process_line env aid st l)) = map msg_id (conversation st)"
  using process_line_patch [of env aid st l] by (auto simp: map_id_patch is_patch_id)

lemma process_lines_ids:
  "map msg_id (conversation (process_lines env aid st ls)) = map msg_id (conversation st)"
  by (induction ls rule: rev_induct) (simp_all add: process_lines_def process_line_ids)

lemma last_id_process_lines:
  assumes "conversation st \<noteq> []"
  shows "conversation (process_lines env aid st ls) \<noteq> [] \<and>
         msg_id (last (conversation (process_lines env aid st ls))) =
           msg_id (last (conversation st))"
proof -
  let ?c = "conversation (process_lines env aid st ls)"
  have ids: "map msg_id ?c = map msg_id (conversation st)" by (rule process_lines_ids)
  then have "length ?c = length (conversation st)" by (metis length_map)
  with assms have ne: "?c \<noteq> []" by auto
  have "msg_id (last ?c) = last (map msg_id ?c)" using ne by (simp add: last_map)
  also have "\<dots> = last (map msg_id (conversation st))" by (simp only: ids)
  also have "\<dots> = msg_id (last (conversation st))" using assms by (simp add: last_map)
  finally show ?thesis using ne by simp
qed

lemma last_append_pair: "last (append_pair u a prev) = a" "append_pair u a prev \<noteq> []"
  by (simp_all add: append_pair_def Let_def MAX_MESSAGES_def)

lemma begin_turn_last:
  assumes "admitted st message"
  shows "messages (begin_turn now st message) \<noteq> []"
    and "last (messages (begin_turn now st message)) = assistant_message (show_nat now)"
  using assms by (simp_all add: begin_turn_def last_append_pair)

lemma sendMessage_messages:
  assumes "admitted st message"
  shows "messages (fst (sendMessage env agent now net st message)) =
           run_turn env (show_nat now @ ''_assistant'') net (messages (begin_turn now st message))"
  using assms by (simp add: sendMessage_def Let_def)

lemma assistant_message_id [simp]:
  "msg_id (assistant_message messageId) = messageId @ ''_assistant''"
  by (simp add: assistant_message_def)

text \<open>The message a turn ends with when its try block fails before the stream is read.\<close>

lemma failed_turn_last:
  assumes "admitted st message"
    and "try_block env (show_nat now @ ''_assistant'') net (messages (begin_turn now st message)) =
           (messages (begin_turn now st message), Some e)"
  shows "last (messages (fst (sendMessage env agent now net st message))) =
           error_patch (classify env e) (assistant_message (show_nat now))"
  using assms begin_turn_last [OF assms(1), of now]
  by (simp add: sendMessage_messages run_turn_def catch_block_def last_patch)

lemma classify_new_Error_string: "classify env (new_Error env (JStr s)) = JStr s"
  by (simp add: classify_def new_Error_def is_AbortError_def is_network_error_def to_string_def)

lemma error_parts_message:
  assumes "content_type r = Some contentType" "str_includes contentType ''application/json''"
    and "json_result r = Inr errorData"
    and "field errorData ''errorParts'' = Some (JArr [JStr A, JStr B])"
  shows "http_error_message env r = JStr (A @ [NL, NL] @ B)"
proof -
  from assms(4) have "errorData \<noteq> JNull" by auto
  with assms show ?thesis
    by (simp add: http_error_message_def get_prop_def array_join_def)
qed

lemma streaming_turn_last:
  assumes "admitted st message" "response_ok r" "body r = Some reader"
  shows "conversation (read_loop env (show_nat now @ ''_assistant'')
            \<lparr>assistantText = [], currentEvent = [],
             conversation = messages (begin_turn now st message)\<rparr> (chunks reader)) \<noteq> [] \<and>
         msg_id (last (conversation (read_loop env (show_nat now @ ''_assistant'')
            \<lparr>assistantText = [], currentEvent = [],
             conversation = messages (begin_turn now st message)\<rparr> (chunks reader)))) =
           show_nat now @ ''_assistant''"
  using last_id_process_lines [of "\<lparr>assistantText = [], currentEvent = [],
             conversation = messages (begin_turn now st message)\<rparr>" env
             "show_nat now @ ''_assistant''" "concat (map split_nl (chunks reader))"]
    begin_turn_last [OF assms(1), of now]
  by (simp add: read_loop_lines)

section \<open>HTTP error bodies\<close>

text \<open>
  A response with status 500 whose body is \<^verbatim>\<open>{"errorParts":["A","B"]}\<close> but whose
  content type is \<^verbatim>\<open>text/plain\<close>: the body is not read, and the error text is the generic
  one.
\<close>

theorem error_parts_content_type_counterexample:
  "\<not> response_ok (error_parts_response ''text/plain'') \<and>
   json_result (error_parts_response ''text/plain'') =
     Inr (JObj [(''errorParts'', JArr [JStr ''A'', JStr ''B''])]) \<and>
   error (last (messages (fst (sendMessage example_env ''agent'' 7
            (FetchResolves (error_parts_response ''text/plain'')) idle ''Hi'')))) =
     Some (JStr ''API Error: 500 Internal Server Error'') \<and>
   error (last (messages (fst (sendMessage example_env ''agent'' 7
            (FetchResolves (error_parts_response ''text/plain'')) idle ''Hi'')))) \<noteq>
     Some (JStr ''A\<newline>\<newline>B'')"
  by code_simp

text \<open>
  Claim C4, as amended. For every response that is not \<^verbatim>\<open>ok\<close>, whose content-type header
  contains \<^verbatim>\<open>application/json\<close> and whose body parses to an object with the error parts
  \<open>A\<close> and \<open>B\<close>, the assistant message of the turn ends with status error and the error
  text \<open>A\<close>, a blank line, \<open>B\<close>.
\<close>

theorem error_parts_joined:
  assumes "admitted st message" "\<not> response_ok r"
    and "content_type r = Some contentType" "str_includes contentType ''application/json''"
    and "json_result r = Inr errorData"
    and "field errorData ''errorParts'' = Some (JArr [JStr A, JStr B])"
  shows "msg_id (last (messages (fst (sendMessage env agent now (FetchResolves r) st message)))) =
           show_nat now @ ''_assistant'' \<and>
         status (last (messages (fst (sendMessage env agent now (FetchResolves r) st message)))) =
           Some Failed \<and>
         error (last (messages (fst (sendMessage env agent now (FetchResolves r) st message)))) =
           Some (JStr (A @ [NL, NL] @ B))"
proof -
  have "try_block env (show_nat now @ ''_assistant'') (FetchResolves r)
          (messages (begin_turn now st message)) =
        (messages (begin_turn now st message), Some (new_Error env (JStr (A @ [NL, NL] @ B))))"
    using assms(2) error_parts_message [OF assms(3-6)] by (simp add: try_block_def)
  from failed_turn_last [OF assms(1) this] show ?thesis
    by (simp add: classify_new_Error_string error_patch_def)
qed

theorem error_parts_joined_witness:
  "admitted idle ''Hi'' \<and> \<not> response_ok (error_parts_response ''application/json; charset=utf-8'') \<and>
   error (last (messages (fst (sendMessage example_env ''agent'' 7
            (FetchResolves (error_parts_response ''application/json; charset=utf-8'')) idle ''Hi'')))) =
     Some (JStr ''A\<newline>\<newline>B'')"
proof -
  have a: "admitted idle ''Hi''" by code_simp
  have b: "\<not> response_ok (error_parts_response ''application/json; charset=utf-8'')"
    by code_simp
  have c: "content_type (error_parts_response ''application/json; charset=utf-8'') =
             Some ''application/json; charset=utf-8''"
    by (simp add: error_parts_response_def)
  have d: "str_includes ''application/json; charset=utf-8'' ''application/json''" by code_simp
  have e: "json_result (error_parts_response ''application/json; charset=utf-8'') =
             Inr (JObj [(''errorParts'', JArr [JStr ''A'', JStr ''B''])])"
    by (simp add: error_parts_response_def)
  have f: "field (JObj [(''errorParts'', JArr [JStr ''A'', JStr ''B''])]) ''errorParts'' =
             Some (JArr [JStr ''A'', JStr ''B''])"
    by simp
  from error_parts_joined [OF a b c d e f, of example_env "''agent''" 7] a b
  show ?thesis by (simp add: NL_def)
qed

section \<open>Cancellation\<close>

text \<open>
  When the abort surfaces at \<^verbatim>\<open>fetch\<close> or at a read of the body, the outer \<^verbatim>\<open>catch\<close> sees the
  \<^verbatim>\<open>AbortError\<close>: the assistant message ends with status error, not streaming, an empty
  text and the cancellation notice.
\<close>

lemma abort_at_fetch_or_read_is_canceled:
  assumes "admitted st message" "is_AbortError e"
    and "net = FetchRejects e \<or>
         (\<exists>r reader. net = FetchResolves r \<and> response_ok r \<and> body r = Some reader \<and>
            ending reader = Some e)"
  shows "msg_id (last (messages (fst (sendMessage env agent now net st message)))) =
           show_nat now @ ''_assistant'' \<and>
         status (last (messages (fst (sendMessage env agent now net st message)))) = Some Failed \<and>
         isStreaming (last (messages (fst (sendMessage env agent now net st message)))) =
           Some False \<and>
         msg_text (last (messages (fst (sendMessage env agent now net st message)))) = [] \<and>
         error (last (messages (fst (sendMessage env agent now net st message)))) =
           Some (JStr canceled_message) \<and>
         str_includes canceled_message USER_CANCELED"
proof -
  have c: "classify env e = JStr canceled_message"
    using assms(2) by (simp add: classify_def)
  have s: "str_includes canceled_message USER_CANCELED" by code_simp
  from assms(3) show ?thesis
  proof
    assume n: "net = FetchRejects e"
    then have "try_block env (show_nat now @ ''_assistant'') net
          (messages (begin_turn now st message)) =
        (messages (begin_turn now st message), Some e)"
      by (simp add: try_block_def)
    from failed_turn_last [OF assms(1) this] c s show ?thesis
      by (simp add: error_patch_def)
  next
    assume "\<exists>r reader. net = FetchResolves r \<and> response_ok r \<and> body r = Some reader \<and>
            ending reader = Some e"
    then obtain r reader where n: "net = FetchResolves r" "response_ok r"
      "body r = Some reader" "ending reader = Some e" by blast
    let ?conv = "conversation (read_loop env (show_nat now @ ''_assistant'')
            \<lparr>assistantText = [], currentEvent = [],
             conversation = messages (begin_turn now st message)\<rparr> (chunks reader))"
    have t: "try_block env (show_nat now @ ''_assistant'') net
          (messages (begin_turn now st message)) = (?conv, Some e)"
      using n by (simp add: try_block_def Let_def)
    have m: "messages (fst (sendMessage env agent now net st message)) =
               patch (show_nat now @ ''_assistant'') (error_patch (JStr canceled_message)) ?conv"
      using t c by (simp add: sendMessage_messages [OF assms(1)] run_turn_def catch_block_def)
    from streaming_turn_last [OF assms(1) n(2,3), of env now] s show ?thesis
      by (simp add: m last_patch error_patch_def)
  qed
qed

text \<open>
  Claim C5, at the input where it fails. The user cancels while the body of a response
  that is not \<^verbatim>\<open>ok\<close> is being read: \<^verbatim>\<open>response.json()\<close> rejects with the \<^verbatim>\<open>AbortError\<close>, the
  inner \<^verbatim>\<open>catch\<close> of lines 103 to 105 swallows it, and the turn ends with the generic HTTP
  error text, which does not contain the cancellation notice.
\<close>

theorem abort_during_error_body:
  "admitted idle ''Hi'' \<and> \<not> response_ok aborted_error_body \<and>
   json_result aborted_error_body =
     Inl (ErrorObject ''AbortError'' False ''The user aborted a request.'' None) \<and>
   is_AbortError (ErrorObject ''AbortError'' False ''The user aborted a request.'' None) \<and>
   status (last (messages (fst (sendMessage example_env ''agent'' 7
            (FetchResolves aborted_error_body) idle ''Hi'')))) = Some Failed \<and>
   error (last (messages (fst (sendMessage example_env ''agent'' 7
            (FetchResolves aborted_error_body) idle ''Hi'')))) =
     Some (JStr ''API Error: 500 Internal Server Error'') \<and>
   \<not> str_includes ''API Error: 500 Internal Server Error'' USER_CANCELED"
  by code_simp

section \<open>Text deltas\<close>

lemma handle_data_on_text_delta:
  assumes "currentEvent s = ''response.text.delta''" "d \<noteq> JNull" "truthy_opt (field d ''text'')"
  shows "handle_data env aid s d =
      (case to_string env (the (field d ''text'')) of
         None \<Rightarrow> None
       | Some t \<Rightarrow>
           Some (update aid (text_delta_patch (assistantText s @ t))
                   (s\<lparr>assistantText := assistantText s @ t\<rparr>)))"
  using assms
  by (simp add: handle_data_def event_and_def get_prop_def Let_def split: option.splits)

lemma handle_data_text:
  assumes "handle_data env aid s d = Some s'"
  shows "assistantText s' =
           assistantText s @
             (case (if currentEvent s = ''response.text.delta'' \<and> d \<noteq> JNull \<and>
                       truthy_opt (field d ''text'')
                    then to_string env (the (field d ''text'')) else None) of
                Some t \<Rightarrow> t | None \<Rightarrow> [])"
proof (cases "currentEvent s = ''response.text.delta'' \<and> d \<noteq> JNull \<and> truthy_opt (field d ''text'')")
  case True
  then have "handle_data env aid s d =
      (case to_string env (the (field d ''text'')) of
         None \<Rightarrow> None
       | Some t \<Rightarrow>
           Some (update aid (text_delta_patch (assistantText s @ t))
                   (s\<lparr>assistantText := assistantText s @ t\<rparr>)))"
    by (simp add: handle_data_on_text_delta)
  with assms True show ?thesis by (auto split: option.splits)
next
  case False
  from assms have "assistantText s' = assistantText s"
  proof (cases rule: handle_data_cases)
    case (text_delta v t)
    then have "d \<noteq> JNull" by auto
    with text_delta False show ?thesis by simp
  qed simp_all
  with False show ?thesis by auto
qed

lemma process_line_text:
  "assistantText (process_line env aid s l) =
     assistantText s @
       (case (if currentEvent s = ''response.text.delta'' then delta_payload env l else None) of
          Some t \<Rightarrow> t | None \<Rightarrow> [])"
proof (cases "startsWith l ''event: ''")
  case True
  then show ?thesis
    by (simp add: process_line_def delta_payload_def event_line_not_data)
next
  case False
  show ?thesis
  proof (cases "startsWith l ''data: '' \<and> trim (drop 6 l) \<noteq> [] \<and> trim (drop 6 l) \<noteq> ''[DONE]''")
    case ok: True
    show ?thesis
    proof (cases "JSON_parse env (trim (drop 6 l))")
      case None
      with False ok show ?thesis by (simp add: process_line_def delta_payload_def)
    next
      case (Some d)
      show ?thesis
      proof (cases "handle_data env aid s d")
        case hn: None
        have "\<not> (currentEvent s = ''response.text.delta'' \<and> d \<noteq> JNull \<and>
               truthy_opt (field d ''text'')) \<or> to_string env (the (field d ''text'')) = None"
        proof (cases "currentEvent s = ''response.text.delta'' \<and> d \<noteq> JNull \<and>
               truthy_opt (field d ''text'')")
          case True
          then have "handle_data env aid s d =
            (case to_string env (the (field d ''text'')) of
               None \<Rightarrow> None
             | Some t \<Rightarrow>
                 Some (update aid (text_delta_patch (assistantText s @ t))
                         (s\<lparr>assistantText := assistantText s @ t\<rparr>)))"
            by (simp add: handle_data_on_text_delta)
          with hn show ?thesis by (cases "to_string env (the (field d ''text''))") simp_all
        next
          case False
          then show ?thesis by blast
        qed
        with False ok Some hn show ?thesis
          by (auto simp: process_line_def delta_payload_def)
      next
        case hs: (Some s')
        from handle_data_text [OF hs] False ok Some hs show ?thesis
          by (auto simp: process_line_def delta_payload_def)
      qed
    qed
  next
    case False2: False
    with False show ?thesis
      by (auto simp: process_line_def delta_payload_def)
  qed
qed

lemma delta_at_snoc:
  "i < length ls \<Longrightarrow> delta_at env ev (ls @ [l]) i = delta_at env ev ls i"
  by (simp add: delta_at_def nth_append)

lemma text_delta_events_snoc:
  "text_delta_events env ev (ls @ [l]) =
     text_delta_events env ev ls @
       (case (if last_declared ev ls = ''response.text.delta'' then delta_payload env l else None) of
          Some t \<Rightarrow> [t] | None \<Rightarrow> [])"
proof -
  have "List.map_filter (delta_at env ev (ls @ [l])) [0..<length ls] =
        List.map_filter (delta_at env ev ls) [0..<length ls]"
    unfolding map_filter_def
    by (intro arg_cong [where f = "map _"] filter_cong map_cong refl)
      (auto simp: delta_at_snoc)
  then show ?thesis
    by (auto simp: text_delta_events_def map_filter_def delta_at_def split: option.splits)
qed

lemma process_lines_text:
  "assistantText (process_lines env aid st ls) =
     assistantText st @ concat (text_delta_events env (currentEvent st) ls)"
proof (induction ls rule: rev_induct)
  case Nil
  show ?case by (simp add: process_lines_def text_delta_events_def map_filter_def)
next
  case (snoc l ls)
  show ?case
    using snoc.IH
    by (simp add: process_lines_snoc process_line_text process_lines_event
        text_delta_events_snoc split: option.splits)
qed

text \<open>
  A stream that carries one text-delta event with the text \<^verbatim>\<open>Hel\<close>, read in two chunks
  that cut its data line: the turn ends with the fallback text.
\<close>

theorem split_event_counterexample:
  \<open>concat split_delta_chunks =
     terminated_lines [''event: response.text.delta'', ''data: {"text":"Hel"}''] \<and>
   text_delta_events example_env []
     [''event: response.text.delta'', ''data: {"text":"Hel"}''] = [''Hel''] \<and>
   msg_text (last (messages (fst (sendMessage example_env ''agent'' 7
       (FetchResolves (example_ok_response split_delta_chunks None)) idle ''Hi'')))) =
     ''Response completed'' \<and>
   msg_text (last (messages (fst (sendMessage example_env ''agent'' 7
       (FetchResolves (example_ok_response split_delta_chunks None)) idle ''Hi'')))) \<noteq> ''Hel''\<close>
  by code_simp

text \<open>
  Claim C1, as amended. If a turn is admitted, the response is \<^verbatim>\<open>ok\<close>, the stream ends
  normally and every chunk read consists of whole lines, each ended by a newline, then,
  whatever else the stream carries, the assistant message, the last of the conversation,
  ends with status sent, not streaming, and as display text the concatenation, in order of
  arrival, of the texts of the text-delta events among those lines; the fixed fallback
  text stands there instead when that concatenation is empty, which for non-empty texts is
  exactly when no text-delta event arrived.
\<close>

theorem final_text_is_concatenation:
  assumes "admitted st message"
    and "response_ok r" and "body r = Some reader" and "ending reader = None"
    and "chunks reader = map terminated_lines groups"
    and "\<forall>g\<in>set groups. \<forall>l\<in>set g. NL \<notin> set l"
  shows "msg_id (last (messages (fst (sendMessage env agent now (FetchResolves r) st message)))) =
           show_nat now @ ''_assistant'' \<and>
         status (last (messages (fst (sendMessage env agent now (FetchResolves r) st message)))) =
           Some Sent \<and>
         isStreaming (last (messages (fst (sendMessage env agent now (FetchResolves r) st message)))) =
           Some False \<and>
         msg_text (last (messages (fst (sendMessage env agent now (FetchResolves r) st message)))) =
           (if concat (text_delta_events env [] (concat groups)) = []
            then RESPONSE_COMPLETED
            else concat (text_delta_events env [] (concat groups))) \<and>
         ([] \<notin> set (text_delta_events env [] (concat groups)) \<longrightarrow>
          msg_text (last (messages (fst (sendMessage env agent now (FetchResolves r) st message)))) =
           (if text_delta_events env [] (concat groups) = []
            then RESPONSE_COMPLETED
            else concat (text_delta_events env [] (concat groups))))"
proof -
  let ?aid = "show_nat now @ ''_assistant''"
  let ?st0 = "\<lparr>assistantText = [], currentEvent = [],
               conversation = messages (begin_turn now st message)\<rparr>"
  let ?fin = "read_loop env ?aid ?st0 (chunks reader)"
  let ?ts = "text_delta_events env [] (concat groups)"
  let ?m = "last (messages (fst (sendMessage env agent now (FetchResolves r) st message)))"
  have "?fin = process_lines env ?aid ?st0 (concat groups)"
    using read_loop_terminated [OF assms(6), of env ?aid ?st0] by (simp only: assms(5))
  then have acc: "assistantText ?fin = concat ?ts"
    using process_lines_text [of env ?aid ?st0 "concat groups"] by simp
  have t: "try_block env ?aid (FetchResolves r) (messages (begin_turn now st message)) =
             (patch ?aid (finalize_patch (assistantText ?fin)) (conversation ?fin), None)"
    using assms(2,3,4) by (simp add: try_block_def Let_def)
  have ms: "messages (fst (sendMessage env agent now (FetchResolves r) st message)) =
              patch ?aid (finalize_patch (concat ?ts)) (conversation ?fin)"
    using t acc by (simp add: sendMessage_messages [OF assms(1)] run_turn_def)
  from streaming_turn_last [OF assms(1,2,3), of env now]
  have m: "?m = finalize_patch (concat ?ts) (last (conversation ?fin))"
    and i: "msg_id (last (conversation ?fin)) = ?aid"
    by (simp_all add: ms last_patch)
  have c1: "msg_id ?m = ?aid" and c2: "status ?m = Some Sent"
    and c3: "isStreaming ?m = Some False"
    using m i by (simp_all add: finalize_patch_def)
  have c4: "msg_text ?m = (if concat ?ts = [] then RESPONSE_COMPLETED else concat ?ts)"
    unfolding m by (simp add: finalize_patch_def)
  have c5: "[] \<notin> set ?ts \<longrightarrow>
              msg_text ?m = (if ?ts = [] then RESPONSE_COMPLETED else concat ?ts)"
  proof
    assume n: "[] \<notin> set ?ts"
    show "msg_text ?m = (if ?ts = [] then RESPONSE_COMPLETED else concat ?ts)"
    proof (cases "?ts = []")
      case True
      with c4 show ?thesis by simp
    next
      case False
      with n have "concat ?ts \<noteq> []" by (cases ?ts) auto
      with c4 False show ?thesis by (simp only: if_False)
    qed
  qed
  from c1 c2 c3 c4 c5 show ?thesis by (intro conjI)
qed

theorem final_text_is_concatenation_witness:
  "admitted idle ''Hi'' \<and>
   hello_chunks = map terminated_lines hello_lines \<and>
   NL \<notin> set (concat (concat hello_lines)) \<and>
   text_delta_events example_env [] (concat hello_lines) = [''Hel'', ''lo''] \<and>
   msg_text (last (messages (fst (sendMessage example_env ''agent'' 7
       (FetchResolves (example_ok_response hello_chunks None)) idle ''Hi'')))) = ''Hello''"
proof -
  have a: "admitted idle ''Hi''" by code_simp
  have b: "response_ok (example_ok_response hello_chunks None)" by code_simp
  have c: "body (example_ok_response hello_chunks None) =
             Some \<lparr>chunks = hello_chunks, ending = None\<rparr>"
    by (simp add: example_ok_response_def)
  have d: "ending \<lparr>chunks = hello_chunks, ending = None\<rparr> = None" by simp
  have e: "hello_chunks = map terminated_lines hello_lines" by code_simp
  have e': "chunks \<lparr>chunks = hello_chunks, ending = None\<rparr> = map terminated_lines hello_lines"
    using e by simp
  have n: "\<forall>g\<in>set hello_lines. \<forall>l\<in>set g. NL \<notin> set l" by code_simp
  have f: "text_delta_events example_env [] (concat hello_lines) = [''Hel'', ''lo'']"
    by code_simp
  from final_text_is_concatenation [OF a b c d e' n, of example_env "''agent''" 7] f
  have m: "msg_text (last (messages (fst (sendMessage example_env ''agent'' 7
       (FetchResolves (example_ok_response hello_chunks None)) idle ''Hi'')))) = ''Hello''"
    by simp
  have n': "NL \<notin> set (concat (concat hello_lines))" by code_simp
  from a e n' f m show ?thesis by (simp only: simp_thms)
qed

section \<open>The operations of the hook keep the conversation reachable\<close>

lemma read_loop_reachable:
  assumes "reachable env (conversation st)"
  shows "reachable env (conversation (read_loop env aid st cs))"
  using reachable_process_lines [OF assms] by (simp add: read_loop_lines)

lemma try_block_reachable:
  assumes "reachable env prev"
  shows "reachable env (fst (try_block env aid net prev))"
proof (cases net)
  case (FetchRejects e)
  with assms show ?thesis by (simp add: try_block_def)
next
  case (FetchResolves r)
  let ?st = "\<lparr>assistantText = [], currentEvent = [], conversation = prev\<rparr>"
  have loop: "\<And>cs. reachable env (conversation (read_loop env aid ?st cs))"
    using assms by (intro read_loop_reachable) simp
  show ?thesis
  proof (cases "body r")
    case None
    with FetchResolves assms show ?thesis by (simp add: try_block_def)
  next
    case (Some reader)
    with FetchResolves assms loop [of "chunks reader"] show ?thesis
      by (auto simp: try_block_def Let_def split: option.splits intro: reachable.finalize)
  qed
qed

lemma run_turn_reachable:
  assumes "reachable env prev"
  shows "reachable env (run_turn env aid net prev)"
  using try_block_reachable [OF assms, of aid net]
  by (cases "try_block env aid net prev")
    (auto simp: run_turn_def split: option.splits intro: reachable.failure)

lemma hook_operations_reachable:
  assumes "reachable env (messages st)"
  shows "reachable env (messages (begin_turn now st message))"
    and "reachable env (messages (fst (sendMessage env agent now net st message)))"
    and "reachable env (messages (cancelRequest st))"
    and "reachable env (messages (clearMessages st))"
proof -
  show b: "reachable env (messages (begin_turn now st message))"
    using assms by (auto simp: begin_turn_def intro: reachable.admit)
  show "reachable env (messages (fst (sendMessage env agent now net st message)))"
    using assms run_turn_reachable [OF b]
    by (simp add: sendMessage_def Let_def)
  show "reachable env (messages (cancelRequest st))"
    using assms by (simp add: cancelRequest_def split: option.splits)
  show "reachable env (messages (clearMessages st))"
    by (simp add: clearMessages_def reachable.initial)
qed

end
